theory Spec2Isabelle
  imports Complex_Main "HOL-Library.Word" "HOL-Library.AList" "HOL-Library.Sublist"
begin

unbundle bit_operations_syntax

section \<open>JavaScript values\<close>

text \<open>
  The adapter classes (three revisions of \<open>GrowattSPF5000\<close>) keep their control
  values in plain JavaScript objects whose properties are overwritten with whatever
  \<open>JSON.parse\<close> delivers, so a property can hold any JSON value. A number is the
  rational it denotes; a rational that no double has as its value stands for the double
  nearest to it, as the decimal \<open>6553.6\<close> does in the program text. \<open>JNaN\<close> is
  the number NaN, \<open>JUndefined\<close> the value read from a missing property or past the end of
  an array. An object is the list of its own properties in insertion order; the list of a
  \<open>JObj\<close> produced by the parser has distinct keys.
\<close>

datatype jsval =
    JUndefined
  | JNull
  | JBool bool
  | JNum rat
  | JNaN
  | JStr string
  | JArr "jsval list"
  | JObj "(string \<times> jsval) list"

type_synonym jsobject = "(string \<times> jsval) list"

text \<open>\<open>obj.k\<close> for a name \<open>k\<close> that \<open>Object.prototype\<close> does not define.\<close>

definition getProp :: "jsobject \<Rightarrow> string \<Rightarrow> jsval" where
  "getProp obj k = (case map_of obj k of Some v \<Rightarrow> v | None \<Rightarrow> JUndefined)"

text \<open>The property names every plain object inherits from \<open>Object.prototype\<close>.\<close>

definition objectPrototypeKeys :: "string list" where
  "objectPrototypeKeys =
     [''constructor'', ''__defineGetter__'', ''__defineSetter__'', ''hasOwnProperty'',
      ''__lookupGetter__'', ''__lookupSetter__'', ''isPrototypeOf'',
      ''propertyIsEnumerable'', ''toString'', ''valueOf'', ''__proto__'',
      ''toLocaleString'']"

text \<open>
  \<open>typeof obj[key] !== 'undefined'\<close>: an own property counts unless its value is
  undefined; a name the object does not own is looked up in \<open>Object.prototype\<close>.
\<close>

definition definedIn :: "jsobject \<Rightarrow> string \<Rightarrow> bool" where
  "definedIn obj key =
     (case map_of obj key of
        Some v \<Rightarrow> v \<noteq> JUndefined
      | None \<Rightarrow> key \<in> set objectPrototypeKeys)"

text \<open>
  \<open>obj[key] = v\<close>. Assigning to the inherited accessor \<open>__proto__\<close> creates no own
  property. When \<open>v\<close> is an object or null the assignment replaces the object's
  prototype instead, and later lookups and the validator's enumeration of properties go
  through the new prototype. This model tracks own properties only: every cached object
  in it has \<open>Object.prototype\<close> as its prototype, and a cache whose prototype an
  update has replaced is outside it.
\<close>

definition setProp :: "jsobject \<Rightarrow> string \<Rightarrow> jsval \<Rightarrow> jsobject" where
  "setProp obj key v =
     (if key = ''__proto__'' \<and> map_of obj key = None then obj
      else AList.update key v obj)"

subsection \<open>Array indices and \<open>Object.keys\<close>\<close>

fun showNat :: "nat \<Rightarrow> string" where
  "showNat n =
     (if n < 10 then [''0123456789'' ! n]
      else showNat (n div 10) @ [''0123456789'' ! (n mod 10)])"

declare showNat.simps [simp del]

text \<open>
  The own enumerable properties that \<open>Object.keys(control)\<close> walks through, each with
  the value \<open>control[key]\<close>; \<open>None\<close> when \<open>Object.keys\<close> throws a TypeError.
\<close>

fun objectKeys :: "jsval \<Rightarrow> (string \<times> jsval) list option" where
  "objectKeys (JObj kvs) = Some kvs"
| "objectKeys (JArr xs) = Some (zip (map showNat [0..<length xs]) xs)"
| "objectKeys (JStr s) = Some (zip (map showNat [0..<length s]) (map (\<lambda>c. JStr [c]) s))"
| "objectKeys JNull = None"
| "objectKeys JUndefined = None"
| "objectKeys _ = Some []"

subsection \<open>32-bit integer operators\<close>

text \<open>
  \<open><<\<close>, \<open>>>\<close>, \<open>|\<close> and \<open>&\<close> convert their operands with ToInt32 (truncate
  towards zero, wrap modulo \<open>2^32\<close>, read as two's complement) and yield a number. The
  operands in the adapter are register words, undefined (a read past the end of the
  reply) or numbers that passed schema validation; strings and objects never reach these
  operators, and their conversion is not modelled (they fall under the last equation).
\<close>

definition truncRat :: "rat \<Rightarrow> int" where
  "truncRat r = (if 0 \<le> r then \<lfloor>r\<rfloor> else \<lceil>r\<rceil>)"

fun toInt32 :: "jsval \<Rightarrow> 32 word" where
  "toInt32 (JNum r) = word_of_int (truncRat r)"
| "toInt32 (JBool b) = (if b then 1 else 0)"
| "toInt32 _ = 0"

definition ofInt32 :: "32 word \<Rightarrow> jsval" where
  "ofInt32 w = JNum (of_int (sint w))"

definition jsShl :: "jsval \<Rightarrow> nat \<Rightarrow> jsval" where
  "jsShl a n = ofInt32 (push_bit n (toInt32 a))"

definition jsShr :: "jsval \<Rightarrow> nat \<Rightarrow> jsval" where
  "jsShr a n = ofInt32 (signed_drop_bit n (toInt32 a))"

definition jsOr :: "jsval \<Rightarrow> jsval \<Rightarrow> jsval" where
  "jsOr a b = ofInt32 (toInt32 a OR toInt32 b)"

definition jsAnd :: "jsval \<Rightarrow> jsval \<Rightarrow> jsval" where
  "jsAnd a b = ofInt32 (toInt32 a AND toInt32 b)"

subsection \<open>Arithmetic on doubles\<close>

text \<open>
  The double nearest to a rational, ties to the even mantissa: \<open>binaryExponent x\<close> is
  the integer \<open>e\<close> with \<open>2^e \<le> |x| < 2^(e+1)\<close>, and the result is the multiple of
  \<open>2^(e-52)\<close> nearest to \<open>x\<close>. Magnitudes outside the range of normal doubles
  (overflow to infinity, subnormal results) are not modelled; the operands of the one
  product in the adapter have passed validation and lie between 20 and 100.
\<close>

function log2floor :: "int \<Rightarrow> int" where
  "log2floor n = (if n < 2 then 0 else 1 + log2floor (n div 2))"
  by auto

termination
  by (relation "measure nat") auto

declare log2floor.simps [simp del]

definition pow2 :: "int \<Rightarrow> rat" where
  "pow2 e = (if 0 \<le> e then 2 ^ nat e else 1 / 2 ^ nat (- e))"

definition binaryExponent :: "rat \<Rightarrow> int" where
  "binaryExponent x =
     (let pq = quotient_of \<bar>x\<bar>;
          d = log2floor (fst pq) - log2floor (snd pq)
      in if pow2 d \<le> \<bar>x\<bar> then d else d - 1)"

definition roundHalfEven :: "rat \<Rightarrow> int" where
  "roundHalfEven x =
     (let f = \<lfloor>x\<rfloor>; d = x - of_int f
      in if d < 1 / 2 then f else if 1 / 2 < d then f + 1 else if even f then f else f + 1)"

definition roundDouble :: "rat \<Rightarrow> rat" where
  "roundDouble x =
     (if x = 0 then 0
      else let e = binaryExponent x - 52 in of_int (roundHalfEven (x / pow2 e)) * pow2 e)"

text \<open>
  \<open>a + b\<close>, \<open>a * c\<close> and \<open>a / 10.0\<close> on numbers; anything else in the adapter's
  uses is undefined or NaN and gives NaN. The sums in the adapter add two 32-bit integers
  and are exact. The product is the double nearest to the product of the two doubles.
  The quotient is the exact quotient, standing for the double nearest to it; it is only
  ever returned, never computed with.
\<close>

fun jsAdd :: "jsval \<Rightarrow> jsval \<Rightarrow> jsval" where
  "jsAdd (JNum a) (JNum b) = JNum (a + b)"
| "jsAdd _ _ = JNaN"

fun jsTimes :: "jsval \<Rightarrow> rat \<Rightarrow> jsval" where
  "jsTimes (JNum a) c = JNum (roundDouble (roundDouble a * roundDouble c))"
| "jsTimes _ _ = JNaN"

fun jsDiv10 :: "jsval \<Rightarrow> jsval" where
  "jsDiv10 (JNum a) = JNum (a / 10)"
| "jsDiv10 _ = JNaN"

section \<open>Schema validation\<close>

text \<open>
  The schemas handed to Ajv use \<open>type: "number"\<close> with \<open>minimum\<close> and \<open>maximum\<close>,
  \<open>type: "string"\<close> with a \<open>pattern\<close> that is an alternation of literals (an unanchored
  regular expression, so it matches any string that contains one of them),
  \<open>required\<close> and \<open>additionalProperties\<close>. The adapter branches on the boolean
  result of the compiled validator only; the validator's error list goes to the console,
  and console output is not part of this model.
\<close>

datatype propSchema =
    NumberSchema rat rat
  | StringSchema "string list"

record schema =
  properties :: "(string \<times> propSchema) list"
  required :: "string list"
  additionalProperties :: bool

fun conforms :: "propSchema \<Rightarrow> jsval \<Rightarrow> bool" where
  "conforms (NumberSchema lo hi) (JNum r) = (lo \<le> r \<and> r \<le> hi)"
| "conforms (NumberSchema lo hi) _ = False"
| "conforms (StringSchema alts) (JStr s) = list_ex (\<lambda>a. sublist a s) alts"
| "conforms (StringSchema alts) _ = False"

definition propertyOk :: "jsobject \<Rightarrow> string \<times> propSchema \<Rightarrow> bool" where
  "propertyOk obj kp = (getProp obj (fst kp) = JUndefined \<or> conforms (snd kp) (getProp obj (fst kp)))"

definition validate :: "schema \<Rightarrow> jsobject \<Rightarrow> bool" where
  "validate sch obj \<longleftrightarrow>
     list_all (\<lambda>k. getProp obj k \<noteq> JUndefined) (required sch) \<and>
     list_all (propertyOk obj) (properties sch) \<and>
     (additionalProperties sch \<or>
      list_all (\<lambda>k. k \<in> set (map fst (properties sch))) (map fst obj))"

section \<open>The register-access channel\<close>

text \<open>
  The \<open>modbusClient\<close> is external. A call either throws or returns the data words of
  its reply; what it does may depend on the calls made before. The calls issued are
  recorded in order. Each wrapper acquires the instance's mutex, awaits the client call
  and releases the mutex in a \<open>finally\<close> block; in a run without concurrent callers
  that is the call itself, with the exception passed on.
\<close>

datatype error =
    ThrowString string
  | ThrowUnknownCommand jsval
  | SyntaxError
  | TypeError
  | ChannelError string

datatype call =
    ReadInput nat nat
  | ReadHolding nat nat
  | WriteRegs nat "jsval list"

type_synonym channel = "call list \<Rightarrow> call \<Rightarrow> error + 16 word list"

record system =
  touChargingValues :: jsobject
  touDischargingValues :: jsobject
  channelCalls :: "call list"

type_synonym 'a outcome = "(error + 'a) \<times> system"

text \<open>Awaiting one asynchronous step after another: an exception ends the sequence.\<close>

definition andThen :: "'a outcome \<Rightarrow> ('a \<Rightarrow> system \<Rightarrow> 'b outcome) \<Rightarrow> 'b outcome" where
  "andThen r f = (case r of (Inl e, st) \<Rightarrow> (Inl e, st) | (Inr x, st) \<Rightarrow> f x st)"

definition channelCall :: "channel \<Rightarrow> call \<Rightarrow> system \<Rightarrow> (16 word list) outcome" where
  "channelCall chan c st =
     (chan (channelCalls st) c, st\<lparr>channelCalls := channelCalls st @ [c]\<rparr>)"

definition readInputRegisters :: "channel \<Rightarrow> nat \<Rightarrow> nat \<Rightarrow> system \<Rightarrow> (16 word list) outcome" where
  "readInputRegisters chan dataAddress len st = channelCall chan (ReadInput dataAddress len) st"

definition readHoldingRegisters :: "channel \<Rightarrow> nat \<Rightarrow> nat \<Rightarrow> system \<Rightarrow> (16 word list) outcome" where
  "readHoldingRegisters chan dataAddress len st = channelCall chan (ReadHolding dataAddress len) st"

definition writeRegisters :: "channel \<Rightarrow> nat \<Rightarrow> jsval list \<Rightarrow> system \<Rightarrow> (16 word list) outcome" where
  "writeRegisters chan dataAddress vals st = channelCall chan (WriteRegs dataAddress vals) st"

text \<open>\<open>data[i]\<close> on the words of a reply.\<close>

definition reg :: "16 word list \<Rightarrow> nat \<Rightarrow> jsval" where
  "reg data i = (if i < length data then JNum (of_nat (unat (data ! i))) else JUndefined)"

section \<open>Control values: merging inbound updates\<close>

text \<open>
  \<open>updateControl\<close> is the same text in all three revisions. \<open>parse\<close> stands for
  \<open>JSON.parse\<close> (\<open>None\<close> when it throws); the body of the \<open>try\<close> block is the
  \<open>foldl\<close> over the keys, and the \<open>catch\<close> block only writes a line to the
  console. The method returns the values of both domains in every case.
\<close>

definition replaceQuotes :: "string \<Rightarrow> string" where
  "replaceQuotes s = map (\<lambda>c. if c = CHR 0x27 then CHR 0x22 else c) s"

definition updateKey :: "string \<Rightarrow> system \<Rightarrow> string \<times> jsval \<Rightarrow> system" where
  "updateKey subTopic st kv =
     (if subTopic = ''touCharging'' \<and> definedIn (touChargingValues st) (fst kv)
      then st\<lparr>touChargingValues := setProp (touChargingValues st) (fst kv) (snd kv)\<rparr>
      else if subTopic = ''touDischarging'' \<and> definedIn (touDischargingValues st) (fst kv)
      then st\<lparr>touDischargingValues := setProp (touDischargingValues st) (fst kv) (snd kv)\<rparr>
      else st)"

definition controlData :: "system \<Rightarrow> (string \<times> jsobject) list" where
  "controlData st =
     [(''touCharging'', touChargingValues st), (''touDischarging'', touDischargingValues st)]"

definition updateControl ::
  "(string \<Rightarrow> jsval option) \<Rightarrow> string \<Rightarrow> string \<Rightarrow> system \<Rightarrow> (string \<times> jsobject) list \<times> system" where
  "updateControl parse subTopic controlMessage st =
     (let st' =
        (case parse (replaceQuotes controlMessage) of
           None \<Rightarrow> st
         | Some control \<Rightarrow>
             (case objectKeys control of
                None \<Rightarrow> st
              | Some kvs \<Rightarrow> foldl (updateKey subTopic) st kvs))
      in (controlData st', st'))"

section \<open>Extended-schedule layout: time-of-use charging and discharging\<close>

text \<open>
  The revision whose control registers live at addresses 1070 to 1108: three time
  windows per domain, hour and minute packed into one word.
\<close>

definition touChargingDefaults :: jsobject where
  "touChargingDefaults =
     [(''chargePower'', JNum 100), (''stopSOC'', JNum 100), (''ac'', JStr ''OFF''),
      (''startHour1'', JNum 0), (''startMinute1'', JNum 0), (''stopHour1'', JNum 0),
      (''stopMinute1'', JNum 0), (''enablePeriod1'', JStr ''OFF''),
      (''startHour2'', JNum 0), (''startMinute2'', JNum 0), (''stopHour2'', JNum 0),
      (''stopMinute2'', JNum 0), (''enablePeriod2'', JStr ''OFF''),
      (''startHour3'', JNum 0), (''startMinute3'', JNum 0), (''stopHour3'', JNum 0),
      (''stopMinute3'', JNum 0), (''enablePeriod3'', JStr ''OFF'')]"

definition touDischargingDefaults :: jsobject where
  "touDischargingDefaults =
     [(''dischargePower'', JNum 100), (''dischargeStopSOC'', JNum 5),
      (''startHour1'', JNum 0), (''startMinute1'', JNum 0), (''stopHour1'', JNum 0),
      (''stopMinute1'', JNum 0), (''enablePeriod1'', JStr ''OFF''),
      (''startHour2'', JNum 0), (''startMinute2'', JNum 0), (''stopHour2'', JNum 0),
      (''stopMinute2'', JNum 0), (''enablePeriod2'', JStr ''OFF''),
      (''startHour3'', JNum 0), (''startMinute3'', JNum 0), (''stopHour3'', JNum 0),
      (''stopMinute3'', JNum 0), (''enablePeriod3'', JStr ''OFF'')]"

definition initialSystem :: system where
  "initialSystem =
     \<lparr>touChargingValues = touChargingDefaults,
      touDischargingValues = touDischargingDefaults,
      channelCalls = []\<rparr>"

definition touChargingSchema :: schema where
  "touChargingSchema =
     \<lparr>properties =
       [(''chargePower'', NumberSchema 0 100), (''stopSOC'', NumberSchema 0 100),
        (''ac'', StringSchema [''ON'', ''OFF'']),
        (''startHour1'', NumberSchema 0 23), (''startMinute1'', NumberSchema 0 59),
        (''stopHour1'', NumberSchema 0 23), (''stopMinute1'', NumberSchema 0 59),
        (''enablePeriod1'', StringSchema [''ON'', ''OFF'']),
        (''startHour2'', NumberSchema 0 23), (''startMinute2'', NumberSchema 0 59),
        (''stopHour2'', NumberSchema 0 23), (''stopMinute2'', NumberSchema 0 59),
        (''enablePeriod2'', StringSchema [''ON'', ''OFF'']),
        (''startHour3'', NumberSchema 0 23), (''startMinute3'', NumberSchema 0 59),
        (''stopHour3'', NumberSchema 0 23), (''stopMinute3'', NumberSchema 0 59),
        (''enablePeriod3'', StringSchema [''ON'', ''OFF''])],
      required =
       [''chargePower'', ''stopSOC'', ''ac'',
        ''startHour1'', ''startMinute1'', ''stopHour1'', ''stopMinute1'',
        ''enablePeriod1'',
        ''startHour2'', ''startMinute2'', ''stopHour2'', ''stopMinute2'',
        ''enablePeriod2'',
        ''startHour3'', ''startMinute3'', ''stopHour3'', ''stopMinute3'',
        ''enablePeriod3''],
      additionalProperties = False\<rparr>"

definition touDischargingSchema :: schema where
  "touDischargingSchema =
     \<lparr>properties =
       [(''dischargePower'', NumberSchema 0 100), (''dischargeStopSOC'', NumberSchema 0 100),
        (''startHour1'', NumberSchema 0 23), (''startMinute1'', NumberSchema 0 59),
        (''stopHour1'', NumberSchema 0 23), (''stopMinute1'', NumberSchema 0 59),
        (''enablePeriod1'', StringSchema [''ON'', ''OFF'']),
        (''startHour2'', NumberSchema 0 23), (''startMinute2'', NumberSchema 0 59),
        (''stopHour2'', NumberSchema 0 23), (''stopMinute2'', NumberSchema 0 59),
        (''enablePeriod2'', StringSchema [''ON'', ''OFF'']),
        (''startHour3'', NumberSchema 0 23), (''startMinute3'', NumberSchema 0 59),
        (''stopHour3'', NumberSchema 0 23), (''stopMinute3'', NumberSchema 0 59),
        (''enablePeriod3'', StringSchema [''ON'', ''OFF''])],
      required =
       [''dischargePower'', ''dischargeStopSOC'',
        ''startHour1'', ''startMinute1'', ''stopHour1'', ''stopMinute1'',
        ''enablePeriod1'',
        ''startHour2'', ''startMinute2'', ''stopHour2'', ''stopMinute2'',
        ''enablePeriod2'',
        ''startHour3'', ''startMinute3'', ''stopHour3'', ''stopMinute3'',
        ''enablePeriod3''],
      additionalProperties = False\<rparr>"

text \<open>\<open>x === "ON" ? 1 : 0\<close> and \<open>(w == 1) ? "ON" : "OFF"\<close>.\<close>

definition onOffWord :: "jsval \<Rightarrow> jsval" where
  "onOffWord x = (if x = JStr ''ON'' then JNum 1 else JNum 0)"

definition onOff :: "jsval \<Rightarrow> jsval" where
  "onOff w = (if w = JNum 1 then JStr ''ON'' else JStr ''OFF'')"

text \<open>The two arrays \<open>writeRegisters1\<close> and \<open>writeRegisters2\<close> of \<open>setTouCharging\<close>.\<close>

definition touChargingWords1 :: "jsobject \<Rightarrow> jsval list" where
  "touChargingWords1 v =
     [getProp v ''chargePower'', getProp v ''stopSOC'', onOffWord (getProp v ''ac'')]"

definition touChargingWords2 :: "jsobject \<Rightarrow> jsval list" where
  "touChargingWords2 v =
     [jsOr (jsShl (getProp v ''startHour1'') 8) (getProp v ''startMinute1''),
      jsOr (jsShl (getProp v ''stopHour1'') 8) (getProp v ''stopMinute1''),
      onOffWord (getProp v ''enablePeriod1''),
      jsOr (jsShl (getProp v ''startHour2'') 8) (getProp v ''startMinute2''),
      jsOr (jsShl (getProp v ''stopHour2'') 8) (getProp v ''stopMinute2''),
      onOffWord (getProp v ''enablePeriod2''),
      jsOr (jsShl (getProp v ''startHour3'') 8) (getProp v ''startMinute3''),
      jsOr (jsShl (getProp v ''stopHour3'') 8) (getProp v ''stopMinute3''),
      onOffWord (getProp v ''enablePeriod3'')]"

definition setTouCharging :: "channel \<Rightarrow> system \<Rightarrow> unit outcome" where
  "setTouCharging chan st =
     (if \<not> validate touChargingSchema (touChargingValues st)
      then (Inl (ThrowString ''Error validating setTouCharging''), st)
      else
        andThen (writeRegisters chan 1090 (touChargingWords1 (touChargingValues st)) st)
          (\<lambda>_ st1.
             andThen (writeRegisters chan 1100 (touChargingWords2 (touChargingValues st)) st1)
               (\<lambda>_ st2. (Inr (), st2))))"

definition touDischargingWords1 :: "jsobject \<Rightarrow> jsval list" where
  "touDischargingWords1 v = [getProp v ''dischargePower'', getProp v ''dischargeStopSOC'']"

definition touDischargingWords2 :: "jsobject \<Rightarrow> jsval list" where
  "touDischargingWords2 v =
     [jsOr (jsShl (getProp v ''startHour1'') 8) (getProp v ''startMinute1''),
      jsOr (jsShl (getProp v ''stopHour1'') 8) (getProp v ''stopMinute1''),
      onOffWord (getProp v ''enablePeriod1''),
      jsOr (jsShl (getProp v ''startHour2'') 8) (getProp v ''startMinute2''),
      jsOr (jsShl (getProp v ''stopHour2'') 8) (getProp v ''stopMinute2''),
      onOffWord (getProp v ''enablePeriod2''),
      jsOr (jsShl (getProp v ''startHour3'') 8) (getProp v ''startMinute3''),
      jsOr (jsShl (getProp v ''stopHour3'') 8) (getProp v ''stopMinute3''),
      onOffWord (getProp v ''enablePeriod3'')]"

definition setTouDischarging :: "channel \<Rightarrow> system \<Rightarrow> unit outcome" where
  "setTouDischarging chan st =
     (if \<not> validate touDischargingSchema (touDischargingValues st)
      then (Inl (ThrowString ''Error validating setTouDischarging''), st)
      else
        andThen (writeRegisters chan 1070 (touDischargingWords1 (touDischargingValues st)) st)
          (\<lambda>_ st1.
             andThen (writeRegisters chan 1080 (touDischargingWords2 (touDischargingValues st)) st1)
               (\<lambda>_ st2. (Inr (), st2))))"

text \<open>The object literals that \<open>getTouCharging\<close> and \<open>getTouDischarging\<close> build from
  the two replies.\<close>

definition touChargingOfWords :: "16 word list \<Rightarrow> 16 word list \<Rightarrow> jsobject" where
  "touChargingOfWords data1 data2 =
     [(''chargePower'', reg data1 0),
      (''stopSOC'', reg data1 1),
      (''ac'', onOff (reg data1 2)),
      (''startHour1'', jsShr (reg data2 0) 8),
      (''startMinute1'', jsAnd (reg data2 0) (JNum 255)),
      (''stopHour1'', jsShr (reg data2 1) 8),
      (''stopMinute1'', jsAnd (reg data2 1) (JNum 255)),
      (''enablePeriod1'', onOff (reg data2 2)),
      (''startHour2'', jsShr (reg data2 3) 8),
      (''startMinute2'', jsAnd (reg data2 3) (JNum 255)),
      (''stopHour2'', jsShr (reg data2 4) 8),
      (''stopMinute2'', jsAnd (reg data2 4) (JNum 255)),
      (''enablePeriod2'', onOff (reg data2 5)),
      (''startHour3'', jsShr (reg data2 6) 8),
      (''startMinute3'', jsAnd (reg data2 6) (JNum 255)),
      (''stopHour3'', jsShr (reg data2 7) 8),
      (''stopMinute3'', jsAnd (reg data2 7) (JNum 255)),
      (''enablePeriod3'', onOff (reg data2 8))]"

definition getTouCharging :: "channel \<Rightarrow> system \<Rightarrow> jsobject outcome" where
  "getTouCharging chan st =
     andThen (readHoldingRegisters chan 1090 3 st)
       (\<lambda>data1 st1.
          andThen (readHoldingRegisters chan 1100 9 st1)
            (\<lambda>data2 st2.
               (Inr (touChargingOfWords data1 data2),
                st2\<lparr>touChargingValues := touChargingOfWords data1 data2\<rparr>)))"

definition touDischargingOfWords :: "16 word list \<Rightarrow> 16 word list \<Rightarrow> jsobject" where
  "touDischargingOfWords data1 data2 =
     [(''dischargePower'', reg data1 0),
      (''dischargeStopSOC'', reg data1 1),
      (''startHour1'', jsShr (reg data2 0) 8),
      (''startMinute1'', jsAnd (reg data2 0) (JNum 255)),
      (''stopHour1'', jsShr (reg data2 1) 8),
      (''stopMinute1'', jsAnd (reg data2 1) (JNum 255)),
      (''enablePeriod1'', onOff (reg data2 2)),
      (''startHour2'', jsShr (reg data2 3) 8),
      (''startMinute2'', jsAnd (reg data2 3) (JNum 255)),
      (''stopHour2'', jsShr (reg data2 4) 8),
      (''stopMinute2'', jsAnd (reg data2 4) (JNum 255)),
      (''enablePeriod2'', onOff (reg data2 5)),
      (''startHour3'', jsShr (reg data2 6) 8),
      (''startMinute3'', jsAnd (reg data2 6) (JNum 255)),
      (''stopHour3'', jsShr (reg data2 7) 8),
      (''stopMinute3'', jsAnd (reg data2 7) (JNum 255)),
      (''enablePeriod3'', onOff (reg data2 8))]"

definition getTouDischarging :: "channel \<Rightarrow> system \<Rightarrow> jsobject outcome" where
  "getTouDischarging chan st =
     andThen (readHoldingRegisters chan 1070 2 st)
       (\<lambda>data1 st1.
          andThen (readHoldingRegisters chan 1080 9 st1)
            (\<lambda>data2 st2.
               (Inr (touDischargingOfWords data1 data2),
                st2\<lparr>touDischargingValues := touDischargingOfWords data1 data2\<rparr>)))"

definition getTime :: "channel \<Rightarrow> system \<Rightarrow> jsobject outcome" where
  "getTime chan st =
     andThen (readHoldingRegisters chan 45 6 st)
       (\<lambda>data st1.
          (Inr [(''year'', reg data 0), (''month'', reg data 1), (''day'', reg data 2),
                (''hour'', reg data 3), (''minute'', reg data 4), (''second'', reg data 5)],
           st1))"

section \<open>Command dispatch\<close>

text \<open>
  \<open>sendCommand\<close> is the same text in all three revisions; here it dispatches to the
  operations of the extended-schedule layout. \<open>parse\<close> stands for \<open>JSON.parse\<close>.
  \<open>commandOf\<close> is the property access \<open>command.command\<close>, which throws a TypeError
  on null. The \<open>set\<close> commands return nothing, the others a sub-topic and its values.
  The lines written to the console on the way are left out.
\<close>

datatype commandResult =
    NoPayload
  | Payload string jsobject

fun commandOf :: "jsval \<Rightarrow> error + jsval" where
  "commandOf JNull = Inl TypeError"
| "commandOf JUndefined = Inl TypeError"
| "commandOf (JObj kvs) = Inr (getProp kvs ''command'')"
| "commandOf _ = Inr JUndefined"

text \<open>The string thrown by the \<open>default\<close> branch, \<open>`Unknown command: ${c}`\<close>; the
  rendering of a value that is not a string is left abstract.\<close>

fun unknownCommand :: "jsval \<Rightarrow> error" where
  "unknownCommand (JStr name) = ThrowString (''Unknown command: '' @ name)"
| "unknownCommand v = ThrowUnknownCommand v"

definition sendCommand ::
  "(string \<Rightarrow> jsval option) \<Rightarrow> channel \<Rightarrow> string \<Rightarrow> system \<Rightarrow> commandResult outcome" where
  "sendCommand parse chan commandString st =
     (case parse commandString of
        None \<Rightarrow> (Inl SyntaxError, st)
      | Some command \<Rightarrow>
          (case commandOf command of
             Inl e \<Rightarrow> (Inl e, st)
           | Inr c \<Rightarrow>
               if c = JStr ''setTouCharging'' then
                 andThen (setTouCharging chan st) (\<lambda>_ st1. (Inr NoPayload, st1))
               else if c = JStr ''getTouCharging'' then
                 andThen (getTouCharging chan st) (\<lambda>v st1. (Inr (Payload ''touCharging'' v), st1))
               else if c = JStr ''setTouDischarging'' then
                 andThen (setTouDischarging chan st) (\<lambda>_ st1. (Inr NoPayload, st1))
               else if c = JStr ''getTouDischarging'' then
                 andThen (getTouDischarging chan st)
                   (\<lambda>v st1. (Inr (Payload ''touDischarging'' v), st1))
               else if c = JStr ''getTime'' then
                 andThen (getTime chan st) (\<lambda>v st1. (Inr (Payload ''time'' v), st1))
               else (Inl (unknownCommand c), st)))"

section \<open>Sensor values\<close>

text \<open>
  \<open>parseInputRegisters\<close> of the extended-schedule revision and of the first revision
  (the same text). \<open>table[data[i]] || data[i]\<close> yields the table's string, or the raw
  word when the table has no entry for it.
\<close>

definition statusMap :: "(nat \<times> string) list" where
  "statusMap =
     [(0, ''Standby''), (1, ''PV an Grid Combine Discharge''), (2, ''Discharge''),
      (3, ''Fault''), (4, ''Flash''), (5, ''PV charge''), (6, ''AC charge''),
      (7, ''Combine charge''), (8, ''Combine charge and Bypass''),
      (9, ''PV charge and Bypass''), (10, ''AC charge and Bypass''), (11, ''Bypass''),
      (12, ''PV charge and Discharge'')]"

definition errorMap :: "(nat \<times> string) list" where
  "errorMap =
     [(2, ''Over Temperature''), (3, ''Bat Voltage High''), (5, ''Output short''),
      (6, ''Output voltage high''), (7, ''Over Load''), (8, ''Bus voltage high''),
      (9, ''Bus start fail''), (51, ''over current''), (52, ''Bus voltage low''),
      (53, ''inverter softstart fail''), (56, ''battery open''),
      (58, ''output voltage low''), (60, ''negtive power''), (61, ''PV voltage high''),
      (62, ''SCI com error''), (80, ''can fault''), (81, ''host loss'')]"

definition lookupOrRaw :: "(nat \<times> string) list \<Rightarrow> 16 word list \<Rightarrow> nat \<Rightarrow> jsval" where
  "lookupOrRaw table data i =
     (if i < length data then
        (case map_of table (unat (data ! i)) of
           Some name \<Rightarrow> JStr name
         | None \<Rightarrow> reg data i)
      else JUndefined)"

definition parseInputRegisters :: "16 word list \<Rightarrow> jsobject" where
  "parseInputRegisters data =
     [(''inverterStatus'', lookupOrRaw statusMap data 0),
      (''ppv'', jsDiv10 (jsOr (jsShl (reg data 3) 16) (reg data 4))),
      (''vpv1'', jsDiv10 (reg data 1)),
      (''ppv1'', jsDiv10 (jsOr (jsShl (reg data 3) 16) (reg data 4))),
      (''vpv2'', jsDiv10 (reg data 2)),
      (''ppv2'', jsDiv10 (jsOr (jsShl (reg data 5) 16) (reg data 6))),
      (''vgrid'', jsDiv10 (reg data 20)),
      (''epvToday'', jsDiv10 (jsAdd (jsOr (jsShl (reg data 48) 16) (reg data 49)) (jsOr (jsShl (reg data 52) 16) (reg data 53)))),
      (''epvTotal'', jsDiv10 (jsAdd (jsOr (jsShl (reg data 50) 16) (reg data 51)) (jsOr (jsShl (reg data 54) 16) (reg data 55)))),
      (''inverterTemperature'', jsDiv10 (reg data 25)),
      (''inverterError'', lookupOrRaw errorMap data 40),
      (''pDischarge'', jsDiv10 (jsOr (jsShl (reg data 73) 16) (reg data 74))),
      (''pCharge'', jsDiv10 (jsOr (jsShl (reg data 77) 16) (reg data 78))),
      (''soc'', reg data 18),
      (''pImport'', jsDiv10 (jsOr (jsShl (reg data 36) 16) (reg data 37))),
      (''pExport'', jsDiv10 (jsOr (jsShl (reg data 69) 16) (reg data 70))),
      (''pLoad'', jsDiv10 (jsOr (jsShl (reg data 69) 16) (reg data 70))),
      (''eImportToday'', jsDiv10 (jsOr (jsShl (reg data 48) 16) (reg data 49))),
      (''eImportTotal'', jsDiv10 (jsOr (jsShl (reg data 50) 16) (reg data 51))),
      (''eExportToday'', jsDiv10 (jsOr (jsShl (reg data 85) 16) (reg data 86))),
      (''eExportTotal'', jsDiv10 (jsOr (jsShl (reg data 87) 16) (reg data 88))),
      (''eDischargeToday'', jsDiv10 (jsOr (jsShl (reg data 60) 16) (reg data 61))),
      (''eDischargeTotal'', jsDiv10 (jsOr (jsShl (reg data 62) 16) (reg data 63))),
      (''eChargeToday'', jsDiv10 (jsOr (jsShl (reg data 60) 16) (reg data 61))),
      (''eChargeTotal'', jsDiv10 (jsOr (jsShl (reg data 62) 16) (reg data 63))),
      (''eLoadToday'', jsDiv10 (jsOr (jsShl (reg data 64) 16) (reg data 65))),
      (''eLoadTotal'', jsDiv10 (jsOr (jsShl (reg data 66) 16) (reg data 67)))]"

definition getSensorData :: "channel \<Rightarrow> system \<Rightarrow> jsobject outcome" where
  "getSensorData chan st =
     andThen (readInputRegisters chan 0 90 st)
       (\<lambda>inputRegisters st1. (Inr (parseInputRegisters inputRegisters), st1))"

section \<open>The two earlier layouts\<close>

text \<open>
  The first revision keeps one hour per boundary in the high byte of a word
  (suffix \<open>_r1\<close>); the second stores the battery thresholds in units of 0.1 and
  the hours as whole words (suffix \<open>_r2\<close>). Both write the charging domain to the
  holding registers 95, 2 and 5 to 6, and the discharging domain to 37 and 3 to 4. The
  two revisions start from the same default values and use the same schema for the
  discharging domain; their charging schemas differ in the minimum of
  \<open>uwAC2BatVolt\<close>.
\<close>

definition touChargingDefaults_r1 :: jsobject where
  "touChargingDefaults_r1 =
     [(''uwAC2BatVolt'', JNum 50), (''chargeConfig'', JNum 0),
      (''utiChargeStart'', JNum 0), (''utiChargeEnd'', JNum 0)]"

definition touDischargingDefaults_r1 :: jsobject where
  "touDischargingDefaults_r1 =
     [(''batLowToUtiVolt'', JNum 30), (''utiOutStart'', JNum 0), (''utiOutEnd'', JNum 0)]"

definition initialSystem_r1 :: system where
  "initialSystem_r1 =
     \<lparr>touChargingValues = touChargingDefaults_r1,
      touDischargingValues = touDischargingDefaults_r1,
      channelCalls = []\<rparr>"

definition touChargingSchema_r1 :: schema where
  "touChargingSchema_r1 =
     \<lparr>properties =
       [(''uwAC2BatVolt'', NumberSchema 0 100), (''chargeConfig'', NumberSchema 0 2),
        (''utiChargeStart'', NumberSchema 0 23), (''utiChargeEnd'', NumberSchema 0 23)],
      required = [''uwAC2BatVolt'', ''chargeConfig'', ''utiChargeStart'', ''utiChargeEnd''],
      additionalProperties = False\<rparr>"

definition touDischargingSchema_r1 :: schema where
  "touDischargingSchema_r1 =
     \<lparr>properties =
       [(''batLowToUtiVolt'', NumberSchema 20 90), (''utiOutStart'', NumberSchema 0 23),
        (''utiOutEnd'', NumberSchema 0 23)],
      required = [''batLowToUtiVolt'', ''utiOutStart'', ''utiOutEnd''],
      additionalProperties = False\<rparr>"

definition setTouCharging_r1 :: "channel \<Rightarrow> system \<Rightarrow> unit outcome" where
  "setTouCharging_r1 chan st =
     (if \<not> validate touChargingSchema_r1 (touChargingValues st)
      then (Inl (ThrowString ''Error validating setTouCharging''), st)
      else
        let v = touChargingValues st;
            writeRegisters1 = [getProp v ''uwAC2BatVolt''];
            writeRegisters2 = [getProp v ''chargeConfig''];
            writeRegisters3 =
              [jsShl (getProp v ''utiChargeStart'') 8, jsShl (getProp v ''utiChargeEnd'') 8]
        in
        andThen (writeRegisters chan 95 writeRegisters1 st)
          (\<lambda>_ st1.
             andThen (writeRegisters chan 2 writeRegisters2 st1)
               (\<lambda>_ st2.
                  andThen (writeRegisters chan 5 writeRegisters3 st2)
                    (\<lambda>_ st3. (Inr (), st3)))))"

definition setTouDischarging_r1 :: "channel \<Rightarrow> system \<Rightarrow> unit outcome" where
  "setTouDischarging_r1 chan st =
     (if \<not> validate touDischargingSchema_r1 (touDischargingValues st)
      then (Inl (ThrowString ''Error validating setTouDischarging''), st)
      else
        let v = touDischargingValues st;
            writeRegisters1 = [getProp v ''batLowToUtiVolt''];
            writeRegisters2 =
              [jsShl (getProp v ''utiOutStart'') 8, jsShl (getProp v ''utiOutEnd'') 8]
        in
        andThen (writeRegisters chan 37 writeRegisters1 st)
          (\<lambda>_ st1.
             andThen (writeRegisters chan 3 writeRegisters2 st1)
               (\<lambda>_ st2. (Inr (), st2))))"

definition touChargingSchema_r2 :: schema where
  "touChargingSchema_r2 =
     \<lparr>properties =
       [(''uwAC2BatVolt'', NumberSchema 30 100), (''chargeConfig'', NumberSchema 0 2),
        (''utiChargeStart'', NumberSchema 0 23), (''utiChargeEnd'', NumberSchema 0 23)],
      required = [''uwAC2BatVolt'', ''chargeConfig'', ''utiChargeStart'', ''utiChargeEnd''],
      additionalProperties = False\<rparr>"

definition setTouCharging_r2 :: "channel \<Rightarrow> system \<Rightarrow> unit outcome" where
  "setTouCharging_r2 chan st =
     (if \<not> validate touChargingSchema_r2 (touChargingValues st)
      then (Inl (ThrowString ''Error validating setTouCharging''), st)
      else
        let v = touChargingValues st;
            writeRegisters1 = [jsTimes (getProp v ''uwAC2BatVolt'') 10];
            writeRegisters2 = [getProp v ''chargeConfig''];
            writeRegisters3 = [getProp v ''utiChargeStart'', getProp v ''utiChargeEnd'']
        in
        andThen (writeRegisters chan 95 writeRegisters1 st)
          (\<lambda>_ st1.
             andThen (writeRegisters chan 2 writeRegisters2 st1)
               (\<lambda>_ st2.
                  andThen (writeRegisters chan 5 writeRegisters3 st2)
                    (\<lambda>_ st3. (Inr (), st3)))))"

definition setTouDischarging_r2 :: "channel \<Rightarrow> system \<Rightarrow> unit outcome" where
  "setTouDischarging_r2 chan st =
     (if \<not> validate touDischargingSchema_r1 (touDischargingValues st)
      then (Inl (ThrowString ''Error validating setTouDischarging''), st)
      else
        let v = touDischargingValues st;
            writeRegisters1 = [jsTimes (getProp v ''batLowToUtiVolt'') 10];
            writeRegisters2 = [getProp v ''utiOutStart'', getProp v ''utiOutEnd'']
        in
        andThen (writeRegisters chan 37 writeRegisters1 st)
          (\<lambda>_ st1.
             andThen (writeRegisters chan 3 writeRegisters2 st1)
               (\<lambda>_ st2. (Inr (), st2))))"

subsection \<open>Sensor values of the second revision\<close>

text \<open>
  The second revision reads the input registers in four windows (26 words from address
  0, 25 from 26, 25 from 51 and 15 from 76) and indexes each reply with the register
  address minus the window's start. \<open>data[j]\<close> is undefined for an index past the end
  of the reply and for a negative one. The object spread \<open>{...a, ...b, ...c}\<close> copies
  the properties of its operands into a new object in order.
\<close>

definition regAt :: "16 word list \<Rightarrow> int \<Rightarrow> jsval" where
  "regAt data j = (if 0 \<le> j then reg data (nat j) else JUndefined)"

definition lookupOrRawAt :: "(nat \<times> string) list \<Rightarrow> 16 word list \<Rightarrow> int \<Rightarrow> jsval" where
  "lookupOrRawAt table data j = (if 0 \<le> j then lookupOrRaw table data (nat j) else JUndefined)"

text \<open>\<open>parseInputRegisters1\<close>, \<open>parseInputRegisters2\<close> and \<open>parseInputRegisters4\<close> of the
  second revision; its status and error tables are those of the other two.\<close>

definition parseInputRegisters1 :: "16 word list \<Rightarrow> jsobject" where
  "parseInputRegisters1 data =
     [(''inverterStatus'', lookupOrRaw statusMap data 0),
      (''ppv'', jsDiv10 (jsOr (jsShl (reg data 3) 16) (reg data 4))),
      (''vpv1'', jsDiv10 (reg data 1)),
      (''ppv1'', jsDiv10 (jsOr (jsShl (reg data 3) 16) (reg data 4))),
      (''vpv2'', jsDiv10 (reg data 2)),
      (''ppv2'', jsDiv10 (jsOr (jsShl (reg data 5) 16) (reg data 6))),
      (''buck1curr'', jsDiv10 (reg data 7)),
      (''vgrid'', jsDiv10 (reg data 20)),
      (''inverterTemperature'', jsDiv10 (reg data 25)),
      (''soc'', reg data 18)]"

definition parseInputRegisters2 :: "16 word list \<Rightarrow> int \<Rightarrow> 16 word list \<Rightarrow> int \<Rightarrow> jsobject" where
  "parseInputRegisters2 data2 offset2 data3 offset3 =
     [(''epvToday'',
         jsDiv10 (jsAdd (jsOr (jsShl (regAt data2 (48 - offset2)) 16) (regAt data2 (49 - offset2)))
                        (jsOr (jsShl (regAt data3 (52 - offset3)) 16) (regAt data3 (53 - offset3))))),
      (''epvTotal'',
         jsDiv10 (jsAdd (jsOr (jsShl (regAt data2 (50 - offset2)) 16) (regAt data3 (51 - offset3)))
                        (jsOr (jsShl (regAt data3 (54 - offset3)) 16) (regAt data3 (55 - offset3))))),
      (''inverterError'', lookupOrRawAt errorMap data2 (40 - offset2)),
      (''pImport'', jsDiv10 (jsOr (jsShl (regAt data2 (36 - offset2)) 16) (regAt data2 (37 - offset2)))),
      (''constantpowerok'', regAt data2 (47 - offset2)),
      (''eImportToday'', jsDiv10 (jsOr (jsShl (regAt data2 (48 - offset2)) 16) (regAt data2 (49 - offset2)))),
      (''eImportTotal'', jsDiv10 (jsOr (jsShl (regAt data2 (50 - offset2)) 16) (regAt data2 (51 - offset2)))),
      (''pDischarge'', jsDiv10 (jsOr (jsShl (regAt data3 (73 - offset3)) 16) (regAt data3 (74 - offset3)))),
      (''pExport'', jsDiv10 (jsOr (jsShl (regAt data3 (69 - offset3)) 16) (regAt data3 (70 - offset3)))),
      (''pLoad'', jsDiv10 (jsOr (jsShl (regAt data3 (69 - offset3)) 16) (regAt data3 (70 - offset3)))),
      (''eDischargeToday'', jsDiv10 (jsOr (jsShl (regAt data3 (60 - offset3)) 16) (regAt data3 (61 - offset3)))),
      (''eDischargeTotal'', jsDiv10 (jsOr (jsShl (regAt data3 (62 - offset3)) 16) (regAt data3 (63 - offset3)))),
      (''eChargeToday'', jsDiv10 (jsOr (jsShl (regAt data3 (60 - offset3)) 16) (regAt data3 (61 - offset3)))),
      (''eChargeTotal'', jsDiv10 (jsOr (jsShl (regAt data3 (62 - offset3)) 16) (regAt data3 (63 - offset3)))),
      (''eLoadToday'', jsDiv10 (jsOr (jsShl (regAt data3 (64 - offset3)) 16) (regAt data3 (65 - offset3)))),
      (''eLoadTotal'', jsDiv10 (jsOr (jsShl (regAt data3 (66 - offset3)) 16) (regAt data3 (67 - offset3))))]"

definition parseInputRegisters4 :: "16 word list \<Rightarrow> int \<Rightarrow> jsobject" where
  "parseInputRegisters4 data offset4 =
     [(''pCharge'', jsDiv10 (jsOr (jsShl (regAt data (77 - offset4)) 16) (regAt data (78 - offset4)))),
      (''eExportToday'', jsDiv10 (jsOr (jsShl (regAt data (85 - offset4)) 16) (regAt data (86 - offset4)))),
      (''eExportTotal'', jsDiv10 (jsOr (jsShl (regAt data (87 - offset4)) 16) (regAt data (88 - offset4))))]"

definition spread :: "jsobject \<Rightarrow> jsobject \<Rightarrow> jsobject" where
  "spread target source = foldl (\<lambda>obj kv. AList.update (fst kv) (snd kv) obj) target source"

definition getSensorData_r2 :: "channel \<Rightarrow> system \<Rightarrow> jsobject outcome" where
  "getSensorData_r2 chan st =
     (let startdata1 = 0; lengthdata1 = 26;
          startdata2 = 26; lengthdata2 = 25;
          startdata3 = 51; lengthdata3 = 25;
          startdata4 = 76; lengthdata4 = 15
      in
      andThen (readInputRegisters chan startdata1 lengthdata1 st)
        (\<lambda>inputRegisters1 st1.
           andThen (readInputRegisters chan startdata2 lengthdata2 st1)
             (\<lambda>inputRegisters2 st2.
                andThen (readInputRegisters chan startdata3 lengthdata3 st2)
                  (\<lambda>inputRegisters3 st3.
                     andThen (readInputRegisters chan startdata4 lengthdata4 st3)
                       (\<lambda>inputRegisters4 st4.
                          (Inr (spread
                                  (spread
                                     (spread [] (parseInputRegisters1 inputRegisters1))
                                     (parseInputRegisters2 inputRegisters2 (int startdata2)
                                        inputRegisters3 (int startdata3)))
                                  (parseInputRegisters4 inputRegisters4 (int startdata4))),
                           st4))))))"

section \<open>Tables used in the statements\<close>

text \<open>
  The boundaries of the extended-schedule layout: the hour field, the minute field and
  the index of the word they share in \<open>writeRegisters2\<close> and in the reply to the read
  of the same registers.
\<close>

definition packedBoundaries :: "(string \<times> string \<times> nat) list" where
  "packedBoundaries =
     [(''startHour1'', ''startMinute1'', 0), (''stopHour1'', ''stopMinute1'', 1),
      (''startHour2'', ''startMinute2'', 3), (''stopHour2'', ''stopMinute2'', 4),
      (''startHour3'', ''startMinute3'', 6), (''stopHour3'', ''stopMinute3'', 7)]"

text \<open>
  The switches of the extended-schedule layout, each with the index of its word in
  \<open>writeRegisters2\<close>.
\<close>

definition switchWords :: "(string \<times> nat) list" where
  "switchWords = [(''enablePeriod1'', 2), (''enablePeriod2'', 5), (''enablePeriod3'', 8)]"

text \<open>
  The sensor fields that \<open>parseInputRegisters\<close> computes as
  \<open>(data[a] << 16 | data[a + 1]) / 10.0\<close>, each with the address \<open>a\<close>.
\<close>

definition combinedFields :: "(string \<times> nat) list" where
  "combinedFields =
     [(''ppv'', 3), (''ppv1'', 3), (''ppv2'', 5), (''pDischarge'', 73), (''pCharge'', 77),
      (''pImport'', 36), (''pExport'', 69), (''pLoad'', 69), (''eImportToday'', 48),
      (''eImportTotal'', 50), (''eExportToday'', 85), (''eExportTotal'', 87),
      (''eDischargeToday'', 60), (''eDischargeTotal'', 62), (''eChargeToday'', 60),
      (''eChargeTotal'', 62), (''eLoadToday'', 64), (''eLoadTotal'', 66)]"

text \<open>
  A device whose registers hold fixed words: a read of \<open>n\<close> registers from address
  \<open>a\<close> is answered with the words at \<open>a\<close> to \<open>a + n - 1\<close>, and every write
  succeeds. \<open>lowWordBank\<close> holds 1 in input register 51 and 0 everywhere else,
  \<open>highWordBank\<close> holds 1 in input register 50 and 0 everywhere else.
\<close>

definition registerBank :: "(nat \<Rightarrow> 16 word) \<Rightarrow> channel" where
  "registerBank bank history c =
     (case c of
        ReadInput a n \<Rightarrow> Inr (map bank [a..<a + n])
      | ReadHolding a n \<Rightarrow> Inr (map bank [a..<a + n])
      | WriteRegs a vals \<Rightarrow> Inr [])"

definition lowWordBank :: "nat \<Rightarrow> 16 word" where
  "lowWordBank a = (if a = 51 then 1 else 0)"

definition highWordBank :: "nat \<Rightarrow> 16 word" where
  "highWordBank a = (if a = 50 then 1 else 0)"

text \<open>The field \<open>k\<close> of the object an operation returned, or the exception it threw.\<close>

definition fieldOf :: "string \<Rightarrow> jsobject outcome \<Rightarrow> error + jsval" where
  "fieldOf k r = map_sum id (\<lambda>v. getProp v k) (fst r)"

text \<open>
  The calls an operation added to the channel's record, and the addresses of the writes
  among them, in the order they were issued.
\<close>

definition callsIssued :: "system \<Rightarrow> 'a outcome \<Rightarrow> call list" where
  "callsIssued st r = drop (length (channelCalls st)) (channelCalls (snd r))"


text \<open>A channel on which every call succeeds, with an empty reply.\<close>

definition quietChannel :: channel where
  "quietChannel history c = Inr []"

text \<open>
  The fields of an object that a schema rejects: required properties that are missing,
  properties whose value does not conform, and properties the schema does not declare.
  This is what a report of every violated field would list; the adapter computes no
  such list.
\<close>

definition violatedFields :: "schema \<Rightarrow> jsobject \<Rightarrow> string list" where
  "violatedFields sch obj =
     filter (\<lambda>k. getProp obj k = JUndefined) (required sch) @
     map fst (filter (\<lambda>kp. \<not> propertyOk obj kp) (properties sch)) @
     (if additionalProperties sch then []
      else filter (\<lambda>k. k \<notin> set (map fst (properties sch))) (map fst obj))"

text \<open>
  \<open>JSON.parse\<close> on the handful of texts used as examples below (written with single
  quotes and passed through \<open>replaceQuotes\<close>, as \<open>updateControl\<close> does); every
  other text is taken as one that does not parse.
\<close>

definition sampleParse :: "string \<Rightarrow> jsval option" where
  "sampleParse s =
     (if s = replaceQuotes ''{'dischargeStopSOC': 5}''
        then Some (JObj [(''dischargeStopSOC'', JNum 5)])
      else if s = replaceQuotes ''{'startHour1': 99, 'chargePower': 150}''
        then Some (JObj [(''startHour1'', JNum 99), (''chargePower'', JNum 150)])
      else if s = replaceQuotes ''{'command': 'unknownThing'}''
        then Some (JObj [(''command'', JStr ''unknownThing'')])
      else if s = ''{}'' then Some (JObj [])
      else if s = ''null'' then Some JNull
      else if s = replaceQuotes ''['a', 7]'' then Some (JArr [JStr ''a'', JNum 7])
      else None)"

text \<open>
  Cached \<open>touDischarging\<close> values used as an example: the first window runs from 6:30
  to 23:59 and is switched on, the second from 12:00 to 12:45 and is switched off, the
  third from 0:00 to 0:01 and is switched on.
\<close>

definition sampleDischarging :: jsobject where
  "sampleDischarging =
     [(''dischargePower'', JNum 80), (''dischargeStopSOC'', JNum 20),
      (''startHour1'', JNum 6), (''startMinute1'', JNum 30), (''stopHour1'', JNum 23),
      (''stopMinute1'', JNum 59), (''enablePeriod1'', JStr ''ON''),
      (''startHour2'', JNum 12), (''startMinute2'', JNum 0), (''stopHour2'', JNum 12),
      (''stopMinute2'', JNum 45), (''enablePeriod2'', JStr ''OFF''),
      (''startHour3'', JNum 0), (''startMinute3'', JNum 0), (''stopHour3'', JNum 0),
      (''stopMinute3'', JNum 1), (''enablePeriod3'', JStr ''ON'')]"


section \<open>The packed hour and minute words\<close>

subsection \<open>Integer operands\<close>

lemma truncRat_of_int: "truncRat (of_int i) = i"
  by (simp add: truncRat_def)

lemma toInt32_of_int: "toInt32 (JNum (of_int i)) = word_of_int i"
  by (simp add: truncRat_of_int)

lemma ofInt32_of_int:
  "- (2 ^ 31) \<le> k \<Longrightarrow> k < 2 ^ 31 \<Longrightarrow> ofInt32 (word_of_int k) = JNum (of_int k)"
  unfolding ofInt32_def
  by (simp add: sint_sbintrunc' signed_take_bit_int_eq_self del: of_int_sint)

lemma push_bit_word_of_int: "push_bit n (word_of_int k :: 32 word) = word_of_int (push_bit n k)"
  by (simp add: push_bit_eq_mult)

lemma jsShl_of_int:
  "jsShl (JNum (of_int k)) n = ofInt32 (word_of_int (push_bit n k))"
  by (simp add: jsShl_def toInt32_of_int push_bit_word_of_int del: toInt32.simps)

lemma jsOr_of_int:
  "jsOr (JNum (of_int a)) (JNum (of_int b)) = ofInt32 (word_of_int (a OR b))"
  by (simp add: jsOr_def toInt32_of_int word_wi_log_defs del: toInt32.simps)

lemma jsAnd_of_int:
  "jsAnd (JNum (of_int a)) (JNum (of_int b)) = ofInt32 (word_of_int (a AND b))"
  by (simp add: jsAnd_def toInt32_of_int word_wi_log_defs del: toInt32.simps)

lemma jsShr_of_int:
  "- (2 ^ 31) \<le> k \<Longrightarrow> k < 2 ^ 31 \<Longrightarrow> jsShr (JNum (of_int k)) n = JNum (of_int (drop_bit n k))"
  unfolding jsShr_def ofInt32_def toInt32_of_int
  by (simp add: sint_signed_drop_bit_eq sint_sbintrunc' signed_take_bit_int_eq_self del: of_int_sint)

lemma push_or_eq_add:
  fixes h m :: int
  assumes "0 \<le> m" "m < 2 ^ n"
  shows "push_bit n h OR m = h * 2 ^ n + m"
proof -
  have m: "take_bit n m = m"
    using assms by (simp add: take_bit_int_eq_self)
  have "push_bit n h AND take_bit n m = 0"
    by (rule bit_eqI) (auto simp: bit_simps)
  then show ?thesis
    by (simp add: m disjunctive_add_eq_or [symmetric] push_bit_eq_mult)
qed

lemma pack_value:
  fixes h m :: int
  assumes "0 \<le> h" "h < 2 ^ 23" "0 \<le> m" "m < 2 ^ 8"
  shows "jsOr (jsShl (JNum (of_int h)) 8) (JNum (of_int m)) = JNum (of_int (h * 256 + m))"
proof -
  have b: "0 \<le> h * 256 + m" "h * 256 + m < 2 ^ 31"
    using assms by simp_all
  have "jsShl (JNum (of_int h)) 8 = JNum (of_int (push_bit 8 h))"
    unfolding jsShl_of_int using assms by (intro ofInt32_of_int) (simp_all add: push_bit_eq_mult)
  then have "jsOr (jsShl (JNum (of_int h)) 8) (JNum (of_int m)) = ofInt32 (word_of_int (push_bit 8 h OR m))"
    by (simp only: jsOr_of_int)
  also have "push_bit 8 h OR m = h * 256 + m"
    using push_or_eq_add [of m 8 h] assms by simp
  finally show ?thesis
    using b by (simp only: ofInt32_of_int)
qed

lemma unpack_hour:
  fixes h m :: int
  assumes "0 \<le> h" "h < 2 ^ 23" "0 \<le> m" "m < 2 ^ 8"
  shows "jsShr (JNum (of_int (h * 256 + m))) 8 = JNum (of_int h)"
proof -
  have "drop_bit 8 (h * 256 + m) = h"
    using assms by (simp add: drop_bit_eq_div)
  moreover have "- (2 ^ 31) \<le> h * 256 + m" "h * 256 + m < 2 ^ 31"
    using assms by simp_all
  ultimately show ?thesis
    by (simp only: jsShr_of_int)
qed

lemma unpack_minute:
  fixes h m :: int
  assumes "0 \<le> h" "h < 2 ^ 23" "0 \<le> m" "m < 2 ^ 8"
  shows "jsAnd (JNum (of_int (h * 256 + m))) (JNum 255) = JNum (of_int m)"
proof -
  have "(h * 256 + m) AND 255 = take_bit 8 (h * 256 + m)"
    by (simp add: take_bit_eq_mask mask_eq_exp_minus_1)
  also have "\<dots> = m"
    using assms by (simp add: take_bit_eq_mod)
  finally have e: "(h * 256 + m) AND 255 = m" .
  have "jsAnd (JNum (of_int (h * 256 + m))) (JNum (of_int 255)) = ofInt32 (word_of_int ((h * 256 + m) AND 255))"
    by (rule jsAnd_of_int)
  also have "\<dots> = JNum (of_int m)"
    unfolding e using assms by (intro ofInt32_of_int) simp_all
  finally show ?thesis by simp
qed

lemma reg_word: "i < length data \<Longrightarrow> reg data i = JNum (of_int (uint (data ! i)))"
  by (simp add: reg_def)

lemma unpack_pack:
  fixes h m :: int
  assumes "0 \<le> h" "h \<le> 23" "0 \<le> m" "m \<le> 59"
    and "w = jsOr (jsShl (JNum (of_int h)) 8) (JNum (of_int m))"
  shows "jsShr w 8 = JNum (of_int h)" and "jsAnd w (JNum 255) = JNum (of_int m)"
proof -
  have r: "0 \<le> h" "h < 2 ^ 23" "0 \<le> m" "m < 2 ^ 8"
    using assms by simp_all
  have w: "w = JNum (of_int (h * 256 + m))"
    using assms(5) pack_value [OF r] by simp
  show "jsShr w 8 = JNum (of_int h)"
    unfolding w by (rule unpack_hour [OF r])
  show "jsAnd w (JNum 255) = JNum (of_int m)"
    unfolding w by (rule unpack_minute [OF r])
qed

subsection \<open>Objects and packed boundaries\<close>

lemma getProp_Nil [simp]: "getProp [] k = JUndefined"
  by (simp add: getProp_def)

lemma getProp_Cons [simp]: "getProp ((k, v) # obj) k' = (if k = k' then v else getProp obj k')"
  by (simp add: getProp_def)

lemma packedBoundaries_iff:
  "(hf, mf, i) \<in> set packedBoundaries \<longleftrightarrow>
     hf = ''startHour1'' \<and> mf = ''startMinute1'' \<and> i = 0
   \<or> hf = ''stopHour1'' \<and> mf = ''stopMinute1'' \<and> i = 1
   \<or> hf = ''startHour2'' \<and> mf = ''startMinute2'' \<and> i = 3
   \<or> hf = ''stopHour2'' \<and> mf = ''stopMinute2'' \<and> i = 4
   \<or> hf = ''startHour3'' \<and> mf = ''startMinute3'' \<and> i = 6
   \<or> hf = ''stopHour3'' \<and> mf = ''stopMinute3'' \<and> i = 7"
  unfolding packedBoundaries_def by simp

lemma touChargingWords2_nth:
  assumes "(hf, mf, i) \<in> set packedBoundaries"
  shows "touChargingWords2 v ! i = jsOr (jsShl (getProp v hf) 8) (getProp v mf)"
  using assms unfolding packedBoundaries_iff
  by (elim disjE conjE) (simp_all add: touChargingWords2_def)

lemma touDischargingWords2_nth:
  assumes "(hf, mf, i) \<in> set packedBoundaries"
  shows "touDischargingWords2 v ! i = jsOr (jsShl (getProp v hf) 8) (getProp v mf)"
  using assms unfolding packedBoundaries_iff
  by (elim disjE conjE) (simp_all add: touDischargingWords2_def)

lemma touChargingOfWords_packed:
  assumes "(hf, mf, i) \<in> set packedBoundaries"
  shows "getProp (touChargingOfWords data1 data2) hf = jsShr (reg data2 i) 8"
    and "getProp (touChargingOfWords data1 data2) mf = jsAnd (reg data2 i) (JNum 255)"
  using assms unfolding packedBoundaries_iff
  by (elim disjE conjE; simp add: touChargingOfWords_def)+

lemma touDischargingOfWords_packed:
  assumes "(hf, mf, i) \<in> set packedBoundaries"
  shows "getProp (touDischargingOfWords data1 data2) hf = jsShr (reg data2 i) 8"
    and "getProp (touDischargingOfWords data1 data2) mf = jsAnd (reg data2 i) (JNum 255)"
  using assms unfolding packedBoundaries_iff
  by (elim disjE conjE; simp add: touDischargingOfWords_def)+

lemma charging_roundtrip:
  fixes h m :: int
  assumes "(hf, mf, i) \<in> set packedBoundaries"
    and "0 \<le> h" "h \<le> 23" "0 \<le> m" "m \<le> 59"
    and "getProp v hf = JNum (of_int h)" "getProp v mf = JNum (of_int m)"
    and "reg data2 i = touChargingWords2 v ! i"
  shows "getProp (touChargingOfWords data1 data2) hf = JNum (of_int h) \<and>
         getProp (touChargingOfWords data1 data2) mf = JNum (of_int m)"
proof -
  have "reg data2 i = jsOr (jsShl (JNum (of_int h)) 8) (JNum (of_int m))"
    using assms(6,7,8) by (simp only: touChargingWords2_nth [OF assms(1)])
  from unpack_pack [OF assms(2-5) this] show ?thesis
    by (simp only: touChargingOfWords_packed [OF assms(1)])
qed

lemma discharging_roundtrip:
  fixes h m :: int
  assumes "(hf, mf, i) \<in> set packedBoundaries"
    and "0 \<le> h" "h \<le> 23" "0 \<le> m" "m \<le> 59"
    and "getProp v hf = JNum (of_int h)" "getProp v mf = JNum (of_int m)"
    and "reg data2 i = touDischargingWords2 v ! i"
  shows "getProp (touDischargingOfWords data1 data2) hf = JNum (of_int h) \<and>
         getProp (touDischargingOfWords data1 data2) mf = JNum (of_int m)"
proof -
  have "reg data2 i = jsOr (jsShl (JNum (of_int h)) 8) (JNum (of_int m))"
    using assms(6,7,8) by (simp only: touDischargingWords2_nth [OF assms(1)])
  from unpack_pack [OF assms(2-5) this] show ?thesis
    by (simp only: touDischargingOfWords_packed [OF assms(1)])
qed

lemma encode_6_30:
  "getProp v ''startHour1'' = JNum 6 \<Longrightarrow> getProp v ''startMinute1'' = JNum 30 \<Longrightarrow>
   touChargingWords2 v ! 0 = JNum 0x061E"
  by (simp add: touChargingWords2_def jsOr_def jsShl_def ofInt32_def truncRat_def)

lemma decode_061E:
  "data2 \<noteq> [] \<Longrightarrow> data2 ! 0 = 0x061E \<Longrightarrow>
   getProp (touChargingOfWords data1 data2) ''startHour1'' = JNum 6 \<and>
   getProp (touChargingOfWords data1 data2) ''startMinute1'' = JNum 30"
  by (simp add: touChargingOfWords_def reg_def jsShr_def jsAnd_def ofInt32_def truncRat_def)

lemma encoded_word:
  fixes h m :: int
  assumes "(hf, mf, i) \<in> set packedBoundaries"
    and "0 \<le> h" "h \<le> 23" "0 \<le> m" "m \<le> 59"
    and "getProp v hf = JNum (of_int h)" "getProp v mf = JNum (of_int m)"
  shows "touChargingWords2 v ! i = JNum (of_int (h * 256 + m))"
    and "touDischargingWords2 v ! i = JNum (of_int (h * 256 + m))"
proof -
  have r: "0 \<le> h" "h < 2 ^ 23" "0 \<le> m" "m < 2 ^ 8"
    using assms(2-5) by simp_all
  show "touChargingWords2 v ! i = JNum (of_int (h * 256 + m))"
    using pack_value [OF r] assms(6,7) by (simp only: touChargingWords2_nth [OF assms(1)])
  show "touDischargingWords2 v ! i = JNum (of_int (h * 256 + m))"
    using pack_value [OF r] assms(6,7) by (simp only: touDischargingWords2_nth [OF assms(1)])
qed

lemma decoded_word:
  fixes h m :: int
  assumes "(hf, mf, i) \<in> set packedBoundaries"
    and "0 \<le> h" "h \<le> 23" "0 \<le> m" "m \<le> 59"
    and "i < length data2" "uint (data2 ! i) = h * 256 + m"
  shows "getProp (touChargingOfWords data1 data2) hf = JNum (of_int h)"
    and "getProp (touChargingOfWords data1 data2) mf = JNum (of_int m)"
    and "getProp (touDischargingOfWords data1' data2) hf = JNum (of_int h)"
    and "getProp (touDischargingOfWords data1' data2) mf = JNum (of_int m)"
proof -
  have r: "0 \<le> h" "h < 2 ^ 23" "0 \<le> m" "m < 2 ^ 8"
    using assms(2-5) by simp_all
  have w: "reg data2 i = JNum (of_int (h * 256 + m))"
    using reg_word [OF assms(6)] assms(7) by simp
  show "getProp (touChargingOfWords data1 data2) hf = JNum (of_int h)"
    unfolding touChargingOfWords_packed [OF assms(1)] w by (rule unpack_hour [OF r])
  show "getProp (touChargingOfWords data1 data2) mf = JNum (of_int m)"
    unfolding touChargingOfWords_packed [OF assms(1)] w by (rule unpack_minute [OF r])
  show "getProp (touDischargingOfWords data1' data2) hf = JNum (of_int h)"
    unfolding touDischargingOfWords_packed [OF assms(1)] w by (rule unpack_hour [OF r])
  show "getProp (touDischargingOfWords data1' data2) mf = JNum (of_int m)"
    unfolding touDischargingOfWords_packed [OF assms(1)] w by (rule unpack_minute [OF r])
qed

text \<open>
  C1. In the extended-schedule layout an hour and a minute share one register word.
  \<open>setTouCharging\<close> writes \<open>(hour << 8) | minute\<close>, so hour 6 and minute 30 give
  the word \<open>0x061E\<close>, and \<open>getTouCharging\<close> reads \<open>word >> 8\<close> and
  \<open>word & 0xFF\<close>, so the word \<open>0x061E\<close> gives hour 6 and minute 30. For every
  boundary of both domains, every whole hour \<open>h\<close> from 0 to 23 and every whole minute
  \<open>m\<close> from 0 to 59: the word written for the boundary is the number
  \<open>256 * h + m\<close>; a reply whose register at the boundary's index holds
  \<open>256 * h + m\<close> decodes to hour \<open>h\<close> and minute \<open>m\<close>; and so does any reply
  whose word is the one that was written.
\<close>

theorem packed_hour_minute_roundtrip:
  "(\<forall>v. getProp v ''startHour1'' = JNum 6 \<and> getProp v ''startMinute1'' = JNum 30 \<longrightarrow>
        touChargingWords2 v ! 0 = JNum 0x061E) \<and>
   (\<forall>data1 data2. data2 \<noteq> [] \<and> data2 ! 0 = 0x061E \<longrightarrow>
        getProp (touChargingOfWords data1 data2) ''startHour1'' = JNum 6 \<and>
        getProp (touChargingOfWords data1 data2) ''startMinute1'' = JNum 30) \<and>
   (\<forall>hf mf i (h::int) (m::int) v.
        (hf, mf, i) \<in> set packedBoundaries \<and> 0 \<le> h \<and> h \<le> 23 \<and> 0 \<le> m \<and> m \<le> 59 \<and>
        getProp v hf = JNum (of_int h) \<and> getProp v mf = JNum (of_int m) \<longrightarrow>
        touChargingWords2 v ! i = JNum (of_int (h * 256 + m)) \<and>
        touDischargingWords2 v ! i = JNum (of_int (h * 256 + m))) \<and>
   (\<forall>hf mf i (h::int) (m::int) data1 data2.
        (hf, mf, i) \<in> set packedBoundaries \<and> 0 \<le> h \<and> h \<le> 23 \<and> 0 \<le> m \<and> m \<le> 59 \<and>
        i < length data2 \<and> uint (data2 ! i) = h * 256 + m \<longrightarrow>
        getProp (touChargingOfWords data1 data2) hf = JNum (of_int h) \<and>
        getProp (touChargingOfWords data1 data2) mf = JNum (of_int m) \<and>
        getProp (touDischargingOfWords data1 data2) hf = JNum (of_int h) \<and>
        getProp (touDischargingOfWords data1 data2) mf = JNum (of_int m)) \<and>
   (\<forall>hf mf i (h::int) (m::int) v data1 data2.
        (hf, mf, i) \<in> set packedBoundaries \<and> 0 \<le> h \<and> h \<le> 23 \<and> 0 \<le> m \<and> m \<le> 59 \<and>
        getProp v hf = JNum (of_int h) \<and> getProp v mf = JNum (of_int m) \<longrightarrow>
        (reg data2 i = touChargingWords2 v ! i \<longrightarrow>
           getProp (touChargingOfWords data1 data2) hf = JNum (of_int h) \<and>
           getProp (touChargingOfWords data1 data2) mf = JNum (of_int m)) \<and>
        (reg data2 i = touDischargingWords2 v ! i \<longrightarrow>
           getProp (touDischargingOfWords data1 data2) hf = JNum (of_int h) \<and>
           getProp (touDischargingOfWords data1 data2) mf = JNum (of_int m)))"
proof (intro conjI allI impI)
  fix v assume "getProp v ''startHour1'' = JNum 6 \<and> getProp v ''startMinute1'' = JNum 30"
  then show "touChargingWords2 v ! 0 = JNum 0x061E"
    using encode_6_30 by blast
next
  fix data1 data2 :: "16 word list"
  assume a: "data2 \<noteq> [] \<and> data2 ! 0 = 0x061E"
  show "getProp (touChargingOfWords data1 data2) ''startHour1'' = JNum 6"
    using decode_061E [of data2 data1] a by blast
  show "getProp (touChargingOfWords data1 data2) ''startMinute1'' = JNum 30"
    using decode_061E [of data2 data1] a by blast
next
  fix hf mf i and h m :: int and v
  assume a: "(hf, mf, i) \<in> set packedBoundaries \<and> 0 \<le> h \<and> h \<le> 23 \<and> 0 \<le> m \<and> m \<le> 59 \<and>
        getProp v hf = JNum (of_int h) \<and> getProp v mf = JNum (of_int m)"
  show "touChargingWords2 v ! i = JNum (of_int (h * 256 + m))"
    using encoded_word(1) [of hf mf i h m v] a by blast
  show "touDischargingWords2 v ! i = JNum (of_int (h * 256 + m))"
    using encoded_word(2) [of hf mf i h m v] a by blast
next
  fix hf mf i and h m :: int and data1 data2 :: "16 word list"
  assume a: "(hf, mf, i) \<in> set packedBoundaries \<and> 0 \<le> h \<and> h \<le> 23 \<and> 0 \<le> m \<and> m \<le> 59 \<and>
        i < length data2 \<and> uint (data2 ! i) = h * 256 + m"
  show "getProp (touChargingOfWords data1 data2) hf = JNum (of_int h)"
    using decoded_word(1) [of hf mf i h m data2 data1] a by blast
  show "getProp (touChargingOfWords data1 data2) mf = JNum (of_int m)"
    using decoded_word(2) [of hf mf i h m data2 data1] a by blast
  show "getProp (touDischargingOfWords data1 data2) hf = JNum (of_int h)"
    using decoded_word(3) [of hf mf i h m data2 data1] a by blast
  show "getProp (touDischargingOfWords data1 data2) mf = JNum (of_int m)"
    using decoded_word(4) [of hf mf i h m data2 data1] a by blast
next
  fix hf mf i and h m :: int and v and data1 data2 :: "16 word list"
  assume a: "(hf, mf, i) \<in> set packedBoundaries \<and> 0 \<le> h \<and> h \<le> 23 \<and> 0 \<le> m \<and> m \<le> 59 \<and>
        getProp v hf = JNum (of_int h) \<and> getProp v mf = JNum (of_int m)"
  {
    assume r: "reg data2 i = touChargingWords2 v ! i"
    show "getProp (touChargingOfWords data1 data2) hf = JNum (of_int h)"
      using charging_roundtrip [of hf mf i h m v data2 data1] a r by blast
    show "getProp (touChargingOfWords data1 data2) mf = JNum (of_int m)"
      using charging_roundtrip [of hf mf i h m v data2 data1] a r by blast
  }
  {
    assume r: "reg data2 i = touDischargingWords2 v ! i"
    show "getProp (touDischargingOfWords data1 data2) hf = JNum (of_int h)"
      using discharging_roundtrip [of hf mf i h m v data2 data1] a r by blast
    show "getProp (touDischargingOfWords data1 data2) mf = JNum (of_int m)"
      using discharging_roundtrip [of hf mf i h m v data2 data1] a r by blast
  }
qed

theorem packed_hour_minute_roundtrip_witness:
  "touChargingWords2 [(''startHour1'', JNum 6), (''startMinute1'', JNum 30)] ! 0 = JNum 0x061E \<and>
   getProp (touChargingOfWords [100, 100, 0] [0x061E, 0, 0, 0, 0, 0, 0, 0, 0]) ''startHour1'' = JNum 6 \<and>
   getProp (touChargingOfWords [100, 100, 0] [0x061E, 0, 0, 0, 0, 0, 0, 0, 0]) ''startMinute1'' = JNum 30 \<and>
   touDischargingWords2 [(''stopHour2'', JNum 23), (''stopMinute2'', JNum 59)] ! 4 = JNum 0x173B \<and>
   touChargingWords2 [(''startHour3'', JNum 12), (''startMinute3'', JNum 45)] ! 6 = JNum 0x0C2D \<and>
   getProp (touDischargingOfWords [100, 5] [0, 0, 0, 0, 0x173B, 0, 0, 0, 0]) ''stopHour2'' = JNum 23 \<and>
   getProp (touDischargingOfWords [100, 5] [0, 0, 0, 0, 0x173B, 0, 0, 0, 0]) ''stopMinute2'' = JNum 59 \<and>
   getProp (touChargingOfWords [100, 100, 0] [0, 0, 0, 0, 0, 0, 0x0C2D, 0, 0]) ''startHour3'' = JNum 12 \<and>
   getProp (touChargingOfWords [100, 100, 0] [0, 0, 0, 0, 0, 0, 0x0C2D, 0, 0]) ''startMinute3'' = JNum 45 \<and>
   getProp (touChargingOfWords [100, 100, 0] [0, 0x0700, 0, 0, 0, 0, 0, 0, 0]) ''stopHour1'' = JNum 7 \<and>
   getProp (touChargingOfWords [100, 100, 0] [0, 0x0700, 0, 0, 0, 0, 0, 0, 0]) ''stopMinute1'' = JNum 0"
proof -
  note t = packed_hour_minute_roundtrip
  have 1: "touChargingWords2 [(''startHour1'', JNum 6), (''startMinute1'', JNum 30)] ! 0 = JNum 0x061E"
    using t [THEN conjunct1, rule_format, of "[(''startHour1'', JNum 6), (''startMinute1'', JNum 30)]"]
    by simp
  have 2: "getProp (touChargingOfWords [100, 100, 0] [0x061E, 0, 0, 0, 0, 0, 0, 0, 0]) ''startHour1'' = JNum 6 \<and>
   getProp (touChargingOfWords [100, 100, 0] [0x061E, 0, 0, 0, 0, 0, 0, 0, 0]) ''startMinute1'' = JNum 30"
    using t [THEN conjunct2, THEN conjunct1, rule_format, of "[0x061E, 0, 0, 0, 0, 0, 0, 0, 0]" "[100, 100, 0]"]
    by simp
  have p: "(''stopHour2'', ''stopMinute2'', 4) \<in> set packedBoundaries"
    by (simp add: packedBoundaries_def)
  have q: "(''startHour3'', ''startMinute3'', 6) \<in> set packedBoundaries"
    by (simp add: packedBoundaries_def)
  have s: "(''stopHour1'', ''stopMinute1'', 1) \<in> set packedBoundaries"
    by (simp add: packedBoundaries_def)
  have 3: "touDischargingWords2 [(''stopHour2'', JNum 23), (''stopMinute2'', JNum 59)] ! 4 = JNum 0x173B"
    using t [THEN conjunct2, THEN conjunct2, THEN conjunct1, rule_format,
        of "''stopHour2''" "''stopMinute2''" 4 23 59 "[(''stopHour2'', JNum 23), (''stopMinute2'', JNum 59)]"] p
    by simp
  have 4: "touChargingWords2 [(''startHour3'', JNum 12), (''startMinute3'', JNum 45)] ! 6 = JNum 0x0C2D"
    using t [THEN conjunct2, THEN conjunct2, THEN conjunct1, rule_format,
        of "''startHour3''" "''startMinute3''" 6 12 45 "[(''startHour3'', JNum 12), (''startMinute3'', JNum 45)]"] q
    by simp
  have 5: "getProp (touDischargingOfWords [100, 5] [0, 0, 0, 0, 0x173B, 0, 0, 0, 0]) ''stopHour2'' = JNum 23 \<and>
   getProp (touDischargingOfWords [100, 5] [0, 0, 0, 0, 0x173B, 0, 0, 0, 0]) ''stopMinute2'' = JNum 59"
    using t [THEN conjunct2, THEN conjunct2, THEN conjunct2, THEN conjunct1, rule_format,
        of "''stopHour2''" "''stopMinute2''" 4 23 59 "[0, 0, 0, 0, 0x173B, 0, 0, 0, 0]" "[100, 5]"] p
    by simp
  have 6: "getProp (touChargingOfWords [100, 100, 0] [0, 0, 0, 0, 0, 0, 0x0C2D, 0, 0]) ''startHour3'' = JNum 12 \<and>
   getProp (touChargingOfWords [100, 100, 0] [0, 0, 0, 0, 0, 0, 0x0C2D, 0, 0]) ''startMinute3'' = JNum 45"
    using t [THEN conjunct2, THEN conjunct2, THEN conjunct2, THEN conjunct1, rule_format,
        of "''startHour3''" "''startMinute3''" 6 12 45 "[0, 0, 0, 0, 0, 0, 0x0C2D, 0, 0]" "[100, 100, 0]"] q
    by simp
  have e: "reg [0, 0x0700, 0, 0, 0, 0, 0, 0, 0] 1 =
      touChargingWords2 [(''stopHour1'', JNum 7), (''stopMinute1'', JNum 0)] ! 1"
    by (simp add: reg_def touChargingWords2_def jsOr_def jsShl_def ofInt32_def truncRat_def)
  have 7: "getProp (touChargingOfWords [100, 100, 0] [0, 0x0700, 0, 0, 0, 0, 0, 0, 0]) ''stopHour1'' = JNum 7 \<and>
   getProp (touChargingOfWords [100, 100, 0] [0, 0x0700, 0, 0, 0, 0, 0, 0, 0]) ''stopMinute1'' = JNum 0"
    using t [THEN conjunct2, THEN conjunct2, THEN conjunct2, THEN conjunct2, rule_format,
        of "''stopHour1''" "''stopMinute1''" 1 7 0 "[(''stopHour1'', JNum 7), (''stopMinute1'', JNum 0)]"
           "[0, 0x0700, 0, 0, 0, 0, 0, 0, 0]" "[100, 100, 0]", THEN conjunct1, rule_format] s e
    by simp
  from 1 2 3 4 5 6 7 show ?thesis by blast
qed

section \<open>Two-word sensor fields\<close>

lemma combine_value:
  fixes h l :: int
  assumes "0 \<le> h" "h < 32768" "0 \<le> l" "l < 65536"
  shows "jsOr (jsShl (JNum (of_int h)) 16) (JNum (of_int l)) = JNum (of_int (h * 65536 + l))"
proof -
  have b: "- (2 ^ 31) \<le> h * 65536 + l" "h * 65536 + l < 2 ^ 31"
    using assms by simp_all
  have "jsShl (JNum (of_int h)) 16 = JNum (of_int (push_bit 16 h))"
    unfolding jsShl_of_int using assms by (intro ofInt32_of_int) (simp_all add: push_bit_eq_mult)
  then have "jsOr (jsShl (JNum (of_int h)) 16) (JNum (of_int l)) = ofInt32 (word_of_int (push_bit 16 h OR l))"
    by (simp only: jsOr_of_int)
  also have "push_bit 16 h OR l = h * 65536 + l"
    using push_or_eq_add [of l 16 h] assms by simp
  finally show ?thesis
    using b by (simp only: ofInt32_of_int)
qed

lemma combinedFields_iff:
  "(f, a) \<in> set combinedFields \<longleftrightarrow>
     f = ''ppv'' \<and> a = 3 \<or> f = ''ppv1'' \<and> a = 3 \<or> f = ''ppv2'' \<and> a = 5
   \<or> f = ''pDischarge'' \<and> a = 73 \<or> f = ''pCharge'' \<and> a = 77
   \<or> f = ''pImport'' \<and> a = 36 \<or> f = ''pExport'' \<and> a = 69 \<or> f = ''pLoad'' \<and> a = 69
   \<or> f = ''eImportToday'' \<and> a = 48 \<or> f = ''eImportTotal'' \<and> a = 50
   \<or> f = ''eExportToday'' \<and> a = 85 \<or> f = ''eExportTotal'' \<and> a = 87
   \<or> f = ''eDischargeToday'' \<and> a = 60 \<or> f = ''eDischargeTotal'' \<and> a = 62
   \<or> f = ''eChargeToday'' \<and> a = 60 \<or> f = ''eChargeTotal'' \<and> a = 62
   \<or> f = ''eLoadToday'' \<and> a = 64 \<or> f = ''eLoadTotal'' \<and> a = 66"
  unfolding combinedFields_def by simp

lemma combined_field:
  assumes "(f, a) \<in> set combinedFields"
  shows "getProp (parseInputRegisters data) f = jsDiv10 (jsOr (jsShl (reg data a) 16) (reg data (Suc a)))"
    and "a < 89"
  using assms unfolding combinedFields_iff
  by (elim disjE conjE; simp add: parseInputRegisters_def)+

lemma combined_general:
  assumes f: "(f, a) \<in> set combinedFields" and len: "length data = 90"
    and hi: "unat (data ! a) < 32768"
  shows "getProp (parseInputRegisters data) f =
           JNum ((65536 * of_nat (unat (data ! a)) + of_nat (unat (data ! Suc a))) / 10)"
proof -
  have "a < 89"
    using f by (rule combined_field(2))
  then have a: "a < length data" "Suc a < length data"
    unfolding len by linarith+
  have "uint (data ! a) = int (unat (data ! a))"
    by (rule uint_nat)
  then have h: "0 \<le> uint (data ! a)" "uint (data ! a) < 32768"
    using hi by linarith+
  have l: "0 \<le> uint (data ! Suc a)" "uint (data ! Suc a) < 65536"
    using uint_bounded [of "data ! Suc a"] by simp_all
  have "jsOr (jsShl (reg data a) 16) (reg data (Suc a)) =
          JNum (of_int (uint (data ! a) * 65536 + uint (data ! Suc a)))"
    unfolding reg_word [OF a(1)] reg_word [OF a(2)] by (rule combine_value [OF h l])
  then show ?thesis
    unfolding combined_field(1) [OF f] by simp
qed

lemma combined_high_low:
  assumes f: "(f, a) \<in> set combinedFields" and len: "length data = 90"
  shows "getProp (parseInputRegisters (data[a := 1, Suc a := 0])) f = JNum 6553.6"
proof -
  have "a < 89"
    using f by (rule combined_field(2))
  then have a: "a < length data" "Suc a < length data"
    unfolding len by linarith+
  have "reg (data[a := 1, Suc a := 0]) a = JNum 1" "reg (data[a := 1, Suc a := 0]) (Suc a) = JNum 0"
    using a by (simp_all add: reg_def)
  then show ?thesis
    unfolding combined_field(1) [OF f]
    by (simp add: jsOr_def jsShl_def ofInt32_def truncRat_def)
qed

lemma combined_low_high:
  assumes f: "(f, a) \<in> set combinedFields" and len: "length data = 90"
  shows "getProp (parseInputRegisters (data[a := 0, Suc a := 1])) f = JNum 0.1"
proof -
  have "a < 89"
    using f by (rule combined_field(2))
  then have a: "a < length data" "Suc a < length data"
    unfolding len by linarith+
  have "reg (data[a := 0, Suc a := 1]) a = JNum 0" "reg (data[a := 0, Suc a := 1]) (Suc a) = JNum 1"
    using a by (simp_all add: reg_def)
  then show ?thesis
    unfolding combined_field(1) [OF f]
    by (simp add: jsOr_def jsShl_def ofInt32_def truncRat_def)
qed

text \<open>
  In the first and in the extended-schedule revision, every sensor field that
  \<open>parseInputRegisters\<close> decodes from two words with
  \<open>(data[a] << 16 | data[a + 1]) / 10.0\<close> takes the word at the lower address as the
  high word: in a reply of 90 words, the words 1, 0 at the field's addresses give 6553.6
  and the words 0, 1 give 0.1; and whenever the high word is below \<open>0x8000\<close> the
  value is \<open>(65536 * data[a] + data[a + 1]) / 10\<close>.
\<close>

lemma combined_fields_word_order:
  "\<forall>f a data. (f, a) \<in> set combinedFields \<and> length data = 90 \<longrightarrow>
      getProp (parseInputRegisters (data[a := 1, Suc a := 0])) f = JNum 6553.6 \<and>
      getProp (parseInputRegisters (data[a := 0, Suc a := 1])) f = JNum 0.1 \<and>
      (unat (data ! a) < 32768 \<longrightarrow>
         getProp (parseInputRegisters data) f =
           JNum ((65536 * of_nat (unat (data ! a)) + of_nat (unat (data ! Suc a))) / 10))"
  using combined_high_low combined_low_high combined_general by blast

lemma combined_fields_word_order_example:
  "getProp (parseInputRegisters ((replicate 90 0)[3 := 1, 4 := 0])) ''ppv'' = JNum 6553.6 \<and>
   getProp (parseInputRegisters ((replicate 90 0)[3 := 0, 4 := 1])) ''ppv'' = JNum 0.1 \<and>
   getProp (parseInputRegisters ((replicate 90 0)[66 := 2, 67 := 5])) ''eLoadTotal'' = JNum 13107.7"
proof -
  have m: "(''ppv'', 3) \<in> set combinedFields" "(''eLoadTotal'', 66) \<in> set combinedFields"
    by (simp_all add: combinedFields_def)
  have s: "Suc 3 = 4" "Suc 66 = 67" by simp_all
  have 1: "getProp (parseInputRegisters ((replicate 90 0)[3 := 1, 4 := 0])) ''ppv'' = JNum 6553.6 \<and>
   getProp (parseInputRegisters ((replicate 90 0)[3 := 0, 4 := 1])) ''ppv'' = JNum 0.1"
    using combined_fields_word_order [rule_format, of "''ppv''" 3 "replicate 90 0"] m(1)
    unfolding s by simp
  have "unat (((replicate 90 0)[66 := 2, 67 := 5] :: 16 word list) ! 66) < 32768"
    by simp
  then have 2: "getProp (parseInputRegisters ((replicate 90 0)[66 := 2, 67 := 5])) ''eLoadTotal'' = JNum 13107.7"
    using combined_fields_word_order [rule_format, of "''eLoadTotal''" 66 "(replicate 90 0)[66 := 2, 67 := 5]"] m(2)
    unfolding s by simp
  from 1 2 show ?thesis by blast
qed

subsection \<open>The second revision\<close>

text \<open>The three partial objects have no property in common, so their spread is their
  concatenation.\<close>

lemma spread_Nil: "spread obj [] = obj"
  by (simp add: spread_def)

lemma spread_Cons: "spread obj (kv # kvs) = spread (AList.update (fst kv) (snd kv) obj) kvs"
  by (simp add: spread_def)

lemma spread_fresh:
  "distinct (map fst src) \<Longrightarrow> set (map fst src) \<inter> set (map fst obj) = {} \<Longrightarrow>
   spread obj src = obj @ src"
proof (induction src arbitrary: obj)
  case Nil
  then show ?case by (simp add: spread_Nil)
next
  case (Cons kv src)
  obtain k v where kv: "kv = (k, v)" by (cases kv)
  have fresh: "k \<notin> fst ` set obj"
    using Cons.prems(2) kv by auto
  then have u: "AList.update k v obj = obj @ [(k, v)]"
    by (induction obj) auto
  have "spread (obj @ [(k, v)]) src = (obj @ [(k, v)]) @ src"
    using Cons.prems kv by (intro Cons.IH) auto
  then show ?case
    by (simp add: spread_Cons kv u)
qed

lemma getSensorData_r2_object:
  "spread (spread (spread [] (parseInputRegisters1 d1)) (parseInputRegisters2 d2 o2 d3 o3))
      (parseInputRegisters4 d4 o4) =
   parseInputRegisters1 d1 @ parseInputRegisters2 d2 o2 d3 o3 @ parseInputRegisters4 d4 o4"
proof -
  have 1: "spread [] (parseInputRegisters1 d1) = parseInputRegisters1 d1"
    using spread_fresh [of "parseInputRegisters1 d1" "[]"]
    by (simp add: parseInputRegisters1_def)
  have 2: "spread (parseInputRegisters1 d1) (parseInputRegisters2 d2 o2 d3 o3) =
      parseInputRegisters1 d1 @ parseInputRegisters2 d2 o2 d3 o3"
    by (rule spread_fresh) (simp_all add: parseInputRegisters1_def parseInputRegisters2_def)
  have 3: "spread (parseInputRegisters1 d1 @ parseInputRegisters2 d2 o2 d3 o3) (parseInputRegisters4 d4 o4) =
      (parseInputRegisters1 d1 @ parseInputRegisters2 d2 o2 d3 o3) @ parseInputRegisters4 d4 o4"
    by (rule spread_fresh)
      (simp_all add: parseInputRegisters1_def parseInputRegisters2_def parseInputRegisters4_def)
  show ?thesis
    by (simp only: 1 2 3 append_assoc)
qed

lemma readInputRegisters_bank:
  "readInputRegisters (registerBank bank) a n st =
     (Inr (map bank [a..<a + n]), st\<lparr>channelCalls := channelCalls st @ [ReadInput a n]\<rparr>)"
  by (simp add: readInputRegisters_def channelCall_def registerBank_def)

lemma getSensorData_r2_bank:
  "fst (getSensorData_r2 (registerBank bank) st) =
     Inr (parseInputRegisters1 (map bank [0..<26]) @
          parseInputRegisters2 (map bank [26..<51]) 26 (map bank [51..<76]) 51 @
          parseInputRegisters4 (map bank [76..<91]) 76)"
  by (simp add: getSensorData_r2_def readInputRegisters_bank andThen_def getSensorData_r2_object Let_def)

text \<open>
  On a device that answers every read with the words of its registers, each two-word
  field of the second revision other than \<open>eImportTotal\<close> is computed from the register
  at the field's address as the high word and the next register as the low word.
\<close>

lemma second_revision_other_fields:
  assumes "(f, a) \<in> set combinedFields" and "f \<noteq> ''eImportTotal''"
  shows "fieldOf f (getSensorData_r2 (registerBank bank) st) =
           Inr (jsDiv10 (jsOr (jsShl (JNum (of_nat (unat (bank a)))) 16)
                              (JNum (of_nat (unat (bank (Suc a)))))))"
  using assms unfolding combinedFields_iff fieldOf_def getSensorData_r2_bank
  by (elim disjE conjE;
      simp add: parseInputRegisters1_def parseInputRegisters2_def parseInputRegisters4_def
        regAt_def reg_def)

lemma toInt32_ofInt32: "toInt32 (ofInt32 w) = w"
proof -
  have "toInt32 (JNum (of_int (sint w))) = word_of_int (sint w)"
    by (rule toInt32_of_int)
  then show ?thesis
    unfolding ofInt32_def by simp
qed

lemma jsOr_undefined: "jsOr (jsShl x n) JUndefined = jsShl x n"
  by (simp add: jsOr_def jsShl_def toInt32_ofInt32 del: toInt32.simps(1))

text \<open>
  \<open>parseInputRegisters2\<close> looks for both words of \<open>eImportTotal\<close> in the reply that
  starts at register 26. That reply has 25 words, registers 26 to 50, so the index
  \<open>51 - 26\<close> is past its end: whatever the third reply holds for register 51, the
  field is computed from register 50 alone.
\<close>

lemma eImportTotal_r2_low_word_unread:
  assumes "length data2 = 25"
  shows "getProp (parseInputRegisters2 data2 26 data3 51) ''eImportTotal'' =
           jsDiv10 (jsShl (reg data2 24) 16)"
proof -
  have "regAt data2 (51 - 26) = JUndefined"
    using assms by (simp add: regAt_def reg_def)
  moreover have "regAt data2 (50 - 26) = reg data2 24"
    by (simp add: regAt_def)
  ultimately show ?thesis
    by (simp add: parseInputRegisters2_def jsOr_undefined)
qed

lemma second_revision_eImportTotal:
  "fieldOf ''eImportTotal'' (getSensorData_r2 (registerBank bank) st) =
     Inr (jsDiv10 (jsShl (JNum (of_nat (unat (bank 50)))) 16))"
  unfolding fieldOf_def getSensorData_r2_bank
  by (simp add: parseInputRegisters1_def parseInputRegisters2_def parseInputRegisters4_def
      regAt_def reg_def jsOr_undefined)

text \<open>
  C2. The rule for a two-word field is that the word at the lower address is the high
  word and the word at the next address the low word, so the words 1, 0 decode to 6553.6
  and the words 0, 1 to 0.1. The field \<open>eImportTotal\<close> of the second revision does not
  follow it. On a device whose input register 50 holds 0 and whose register 51 holds 1,
  \<open>getSensorData\<close> of the second revision returns 0 for \<open>eImportTotal\<close>, where
  \<open>getSensorData\<close> of the first revision returns 0.1 for the same field of the same
  device; \<open>epvTotal\<close>, which the second revision computes from the same two registers
  (and two more that hold 0), is 0.1, because it takes register 51 from the third reply.
  With 1 in register 50 and 0 in register 51 the second revision returns 6553.6.
\<close>

theorem eImportTotal_r2_drops_low_word:
  "fieldOf ''eImportTotal'' (getSensorData_r2 (registerBank lowWordBank) initialSystem_r1) = Inr (JNum 0) \<and>
   fieldOf ''eImportTotal'' (getSensorData (registerBank lowWordBank) initialSystem_r1) = Inr (JNum 0.1) \<and>
   fieldOf ''epvTotal'' (getSensorData_r2 (registerBank lowWordBank) initialSystem_r1) = Inr (JNum 0.1) \<and>
   fieldOf ''eImportTotal'' (getSensorData_r2 (registerBank highWordBank) initialSystem_r1) = Inr (JNum 6553.6)"
  by code_simp

section \<open>Validation and the set commands\<close>

subsection \<open>Properties and schemas\<close>

lemma getProp_update:
  "getProp (AList.update k v obj) k' = (if k' = k then v else getProp obj k')"
  by (simp add: getProp_def update_conv')

lemma getProp_defined_own:
  "getProp obj k \<noteq> JUndefined \<Longrightarrow> map_of obj k \<noteq> None \<and> definedIn obj k"
  by (auto simp: getProp_def definedIn_def split: option.splits)

lemma getProp_setProp_own:
  "getProp obj k \<noteq> JUndefined \<Longrightarrow> setProp obj k v = AList.update k v obj"
  using getProp_defined_own [of obj k] by (auto simp: setProp_def)

lemma validate_required:
  "validate sch obj \<Longrightarrow> k \<in> set (required sch) \<Longrightarrow> getProp obj k \<noteq> JUndefined"
  by (simp add: validate_def list_all_iff)

lemma validate_property:
  "validate sch obj \<Longrightarrow> (k, ps) \<in> set (properties sch) \<Longrightarrow> getProp obj k \<noteq> JUndefined \<Longrightarrow>
   conforms ps (getProp obj k)"
  by (fastforce simp: validate_def list_all_iff propertyOk_def)

lemma validate_violation:
  "(k, ps) \<in> set (properties sch) \<Longrightarrow> getProp obj k \<noteq> JUndefined \<Longrightarrow>
   \<not> conforms ps (getProp obj k) \<Longrightarrow> \<not> validate sch obj"
  using validate_property by blast

lemma validate_update:
  assumes v: "validate sch obj"
    and d: "x \<noteq> JUndefined"
    and c: "\<And>ps. (k, ps) \<in> set (properties sch) \<Longrightarrow> conforms ps x"
    and k: "k \<in> fst ` set (properties sch)"
  shows "validate sch (AList.update k x obj)"
proof -
  have r: "list_all (\<lambda>r. getProp (AList.update k x obj) r \<noteq> JUndefined) (required sch)"
    using v d by (simp add: validate_def list_all_iff getProp_update)
  have p: "list_all (propertyOk (AList.update k x obj)) (properties sch)"
    using v c by (auto simp: validate_def list_all_iff propertyOk_def getProp_update)
  have a: "additionalProperties sch \<or>
      list_all (\<lambda>k. k \<in> set (map fst (properties sch))) (map fst (AList.update k x obj))"
  proof (cases "additionalProperties sch")
    case True
    then show ?thesis by simp
  next
    case False
    have s: "set (map fst (AList.update k x obj)) \<subseteq> insert k (set (map fst obj))"
      by (auto simp: dom_update)
    have "\<forall>k' \<in> set (map fst obj). k' \<in> set (map fst (properties sch))"
      using v False by (simp add: validate_def list_all_iff)
    moreover have "k \<in> set (map fst (properties sch))"
      using k by simp
    ultimately have "\<forall>k' \<in> set (map fst (AList.update k x obj)). k' \<in> set (map fst (properties sch))"
      using s by blast
    then show ?thesis
      by (simp add: list_all_iff)
  qed
  from r p a show ?thesis
    by (simp add: validate_def)
qed

subsection \<open>The set commands\<close>

lemma callsIssued_unchanged [simp]: "callsIssued st (r, st) = []"
  by (simp add: callsIssued_def)

lemma setTouCharging_invalid:
  "\<not> validate touChargingSchema (touChargingValues st) \<Longrightarrow>
   setTouCharging chan st = (Inl (ThrowString ''Error validating setTouCharging''), st)"
  by (simp add: setTouCharging_def)

lemma setTouDischarging_invalid:
  "\<not> validate touDischargingSchema (touDischargingValues st) \<Longrightarrow>
   setTouDischarging chan st = (Inl (ThrowString ''Error validating setTouDischarging''), st)"
  by (simp add: setTouDischarging_def)

lemma setTouCharging_r1_invalid:
  "\<not> validate touChargingSchema_r1 (touChargingValues st) \<Longrightarrow>
   setTouCharging_r1 chan st = (Inl (ThrowString ''Error validating setTouCharging''), st)"
  by (simp add: setTouCharging_r1_def)

lemma setTouDischarging_r1_invalid:
  "\<not> validate touDischargingSchema_r1 (touDischargingValues st) \<Longrightarrow>
   setTouDischarging_r1 chan st = (Inl (ThrowString ''Error validating setTouDischarging''), st)"
  by (simp add: setTouDischarging_r1_def)

lemma setTouCharging_r2_invalid:
  "\<not> validate touChargingSchema_r2 (touChargingValues st) \<Longrightarrow>
   setTouCharging_r2 chan st = (Inl (ThrowString ''Error validating setTouCharging''), st)"
  by (simp add: setTouCharging_r2_def)

lemma setTouDischarging_r2_invalid:
  "\<not> validate touDischargingSchema_r1 (touDischargingValues st) \<Longrightarrow>
   setTouDischarging_r2 chan st = (Inl (ThrowString ''Error validating setTouDischarging''), st)"
  by (simp add: setTouDischarging_r2_def)

lemma write_then:
  "andThen (writeRegisters chan a vals st) f =
     (case chan (channelCalls st) (WriteRegs a vals) of
        Inl e \<Rightarrow> (Inl e, st\<lparr>channelCalls := channelCalls st @ [WriteRegs a vals]\<rparr>)
      | Inr ws \<Rightarrow> f ws (st\<lparr>channelCalls := channelCalls st @ [WriteRegs a vals]\<rparr>))"
  by (simp add: andThen_def writeRegisters_def channelCall_def split: sum.splits)


lemma setTouDischarging_valid:
  assumes "validate touDischargingSchema (touDischargingValues st)"
  shows "callsIssued st (setTouDischarging chan st) =
           (if isl (chan (channelCalls st) (WriteRegs 1070 (touDischargingWords1 (touDischargingValues st))))
            then [WriteRegs 1070 (touDischargingWords1 (touDischargingValues st))]
            else [WriteRegs 1070 (touDischargingWords1 (touDischargingValues st)),
                  WriteRegs 1080 (touDischargingWords2 (touDischargingValues st))])"
  using assms
  by (simp add: setTouDischarging_def write_then callsIssued_def split: sum.splits)







subsection \<open>The default values\<close>

lemma sublist_eval [simp]:
  "sublist [] ys = True"
  "sublist (x # xs) [] = False"
  "sublist (x # xs) (y # ys) = (prefix (x # xs) (y # ys) \<or> sublist (x # xs) ys)"
  by (simp_all add: sublist_code)

lemma defaults_valid:
  "validate touChargingSchema touChargingDefaults"
  "validate touDischargingSchema touDischargingDefaults"
  "validate touChargingSchema_r1 touChargingDefaults_r1"
  "validate touDischargingSchema_r1 touDischargingDefaults_r1"
  "validate touChargingSchema_r2 touChargingDefaults_r1"
  by (simp_all add: validate_def propertyOk_def touChargingSchema_def touChargingDefaults_def
      touDischargingSchema_def touDischargingDefaults_def touChargingSchema_r1_def
      touChargingDefaults_r1_def touDischargingSchema_r1_def touDischargingDefaults_r1_def
      touChargingSchema_r2_def)

subsection \<open>Runs in which no call throws\<close>




section \<open>Out-of-range values never reach the channel\<close>

lemma percent150 [simp]: "\<not> conforms (NumberSchema lo 100) (JNum 150)" "\<not> conforms (NumberSchema lo 90) (JNum 150)"
  by simp_all

lemma chargePower_150:
  assumes "getProp obj ''chargePower'' = JNum 150 \<or> getProp obj ''stopSOC'' = JNum 150"
  shows "\<not> validate touChargingSchema obj"
  using assms
proof
  assume a: "getProp obj ''chargePower'' = JNum 150"
  have "(''chargePower'', NumberSchema 0 100) \<in> set (properties touChargingSchema)"
    by (simp add: touChargingSchema_def)
  then show ?thesis
    by (rule validate_violation) (simp_all add: a)
next
  assume a: "getProp obj ''stopSOC'' = JNum 150"
  have "(''stopSOC'', NumberSchema 0 100) \<in> set (properties touChargingSchema)"
    by (simp add: touChargingSchema_def)
  then show ?thesis
    by (rule validate_violation) (simp_all add: a)
qed

lemma dischargePower_150:
  assumes "getProp obj ''dischargePower'' = JNum 150 \<or> getProp obj ''dischargeStopSOC'' = JNum 150"
  shows "\<not> validate touDischargingSchema obj"
  using assms
proof
  assume a: "getProp obj ''dischargePower'' = JNum 150"
  have "(''dischargePower'', NumberSchema 0 100) \<in> set (properties touDischargingSchema)"
    by (simp add: touDischargingSchema_def)
  then show ?thesis
    by (rule validate_violation) (simp_all add: a)
next
  assume a: "getProp obj ''dischargeStopSOC'' = JNum 150"
  have "(''dischargeStopSOC'', NumberSchema 0 100) \<in> set (properties touDischargingSchema)"
    by (simp add: touDischargingSchema_def)
  then show ?thesis
    by (rule validate_violation) (simp_all add: a)
qed

lemma uwAC2BatVolt_150:
  assumes a: "getProp obj ''uwAC2BatVolt'' = JNum 150"
  shows "\<not> validate touChargingSchema_r1 obj" and "\<not> validate touChargingSchema_r2 obj"
proof -
  have "(''uwAC2BatVolt'', NumberSchema 0 100) \<in> set (properties touChargingSchema_r1)"
    by (simp add: touChargingSchema_r1_def)
  then show "\<not> validate touChargingSchema_r1 obj"
    by (rule validate_violation) (simp_all add: a)
  have "(''uwAC2BatVolt'', NumberSchema 30 100) \<in> set (properties touChargingSchema_r2)"
    by (simp add: touChargingSchema_r2_def)
  then show "\<not> validate touChargingSchema_r2 obj"
    by (rule validate_violation) (simp_all add: a)
qed

lemma batLowToUtiVolt_150:
  assumes a: "getProp obj ''batLowToUtiVolt'' = JNum 150"
  shows "\<not> validate touDischargingSchema_r1 obj"
proof -
  have "(''batLowToUtiVolt'', NumberSchema 20 90) \<in> set (properties touDischargingSchema_r1)"
    by (simp add: touDischargingSchema_r1_def)
  then show ?thesis
    by (rule validate_violation) (simp_all add: a)
qed

text \<open>
  C4. Whenever a cached domain holds 150 in a percentage field, the domain's set command
  fails validation: it throws before its first write, so it adds no call at all to the
  channel's record and leaves the whole state as it was. This holds for
  \<open>chargePower\<close> and \<open>stopSOC\<close>, \<open>dischargePower\<close> and \<open>dischargeStopSOC\<close> of the
  extended-schedule layout, and for \<open>uwAC2BatVolt\<close> and \<open>batLowToUtiVolt\<close> of the
  two earlier layouts.
\<close>

theorem percentage_150_issues_no_write:
  "(getProp (touChargingValues st) ''chargePower'' = JNum 150 \<or>
    getProp (touChargingValues st) ''stopSOC'' = JNum 150 \<longrightarrow>
      setTouCharging chan st = (Inl (ThrowString ''Error validating setTouCharging''), st) \<and>
      callsIssued st (setTouCharging chan st) = []) \<and>
   (getProp (touDischargingValues st) ''dischargePower'' = JNum 150 \<or>
    getProp (touDischargingValues st) ''dischargeStopSOC'' = JNum 150 \<longrightarrow>
      setTouDischarging chan st = (Inl (ThrowString ''Error validating setTouDischarging''), st) \<and>
      callsIssued st (setTouDischarging chan st) = []) \<and>
   (getProp (touChargingValues st) ''uwAC2BatVolt'' = JNum 150 \<longrightarrow>
      callsIssued st (setTouCharging_r1 chan st) = [] \<and>
      callsIssued st (setTouCharging_r2 chan st) = []) \<and>
   (getProp (touDischargingValues st) ''batLowToUtiVolt'' = JNum 150 \<longrightarrow>
      callsIssued st (setTouDischarging_r1 chan st) = [] \<and>
      callsIssued st (setTouDischarging_r2 chan st) = [])"
proof (intro conjI impI)
  assume a: "getProp (touChargingValues st) ''chargePower'' = JNum 150 \<or>
    getProp (touChargingValues st) ''stopSOC'' = JNum 150"
  show "setTouCharging chan st = (Inl (ThrowString ''Error validating setTouCharging''), st)"
    by (rule setTouCharging_invalid [OF chargePower_150 [OF a]])
  then show "callsIssued st (setTouCharging chan st) = []"
    by simp
next
  assume a: "getProp (touDischargingValues st) ''dischargePower'' = JNum 150 \<or>
    getProp (touDischargingValues st) ''dischargeStopSOC'' = JNum 150"
  show "setTouDischarging chan st = (Inl (ThrowString ''Error validating setTouDischarging''), st)"
    by (rule setTouDischarging_invalid [OF dischargePower_150 [OF a]])
  then show "callsIssued st (setTouDischarging chan st) = []"
    by simp
next
  assume a: "getProp (touChargingValues st) ''uwAC2BatVolt'' = JNum 150"
  show "callsIssued st (setTouCharging_r1 chan st) = []"
    by (simp add: setTouCharging_r1_invalid [OF uwAC2BatVolt_150(1) [OF a]])
  show "callsIssued st (setTouCharging_r2 chan st) = []"
    by (simp add: setTouCharging_r2_invalid [OF uwAC2BatVolt_150(2) [OF a]])
next
  assume a: "getProp (touDischargingValues st) ''batLowToUtiVolt'' = JNum 150"
  show "callsIssued st (setTouDischarging_r1 chan st) = []"
    by (simp add: setTouDischarging_r1_invalid [OF batLowToUtiVolt_150 [OF a]])
  show "callsIssued st (setTouDischarging_r2 chan st) = []"
    by (simp add: setTouDischarging_r2_invalid [OF batLowToUtiVolt_150 [OF a]])
qed

theorem percentage_150_issues_no_write_witness:
  "callsIssued (initialSystem\<lparr>touChargingValues := setProp touChargingDefaults ''stopSOC'' (JNum 150)\<rparr>)
     (setTouCharging quietChannel
        (initialSystem\<lparr>touChargingValues := setProp touChargingDefaults ''stopSOC'' (JNum 150)\<rparr>)) = [] \<and>
   callsIssued (initialSystem\<lparr>touDischargingValues := setProp touDischargingDefaults ''dischargePower'' (JNum 150)\<rparr>)
     (setTouDischarging quietChannel
        (initialSystem\<lparr>touDischargingValues := setProp touDischargingDefaults ''dischargePower'' (JNum 150)\<rparr>)) = [] \<and>
   callsIssued (initialSystem_r1\<lparr>touChargingValues := setProp touChargingDefaults_r1 ''uwAC2BatVolt'' (JNum 150)\<rparr>)
     (setTouCharging_r1 quietChannel
        (initialSystem_r1\<lparr>touChargingValues := setProp touChargingDefaults_r1 ''uwAC2BatVolt'' (JNum 150)\<rparr>)) = [] \<and>
   callsIssued (initialSystem_r1\<lparr>touDischargingValues := setProp touDischargingDefaults_r1 ''batLowToUtiVolt'' (JNum 150)\<rparr>)
     (setTouDischarging_r2 quietChannel
        (initialSystem_r1\<lparr>touDischargingValues := setProp touDischargingDefaults_r1 ''batLowToUtiVolt'' (JNum 150)\<rparr>)) = []"
proof -
  have 1: "getProp (setProp touChargingDefaults ''stopSOC'' (JNum 150)) ''stopSOC'' = JNum 150"
    by (simp add: setProp_def touChargingDefaults_def)
  have 2: "getProp (setProp touDischargingDefaults ''dischargePower'' (JNum 150)) ''dischargePower'' = JNum 150"
    by (simp add: setProp_def touDischargingDefaults_def)
  have 3: "getProp (setProp touChargingDefaults_r1 ''uwAC2BatVolt'' (JNum 150)) ''uwAC2BatVolt'' = JNum 150"
    by (simp add: setProp_def touChargingDefaults_r1_def)
  have 4: "getProp (setProp touDischargingDefaults_r1 ''batLowToUtiVolt'' (JNum 150)) ''batLowToUtiVolt'' = JNum 150"
    by (simp add: setProp_def touDischargingDefaults_r1_def)
  show ?thesis
    using percentage_150_issues_no_write
            [of "initialSystem\<lparr>touChargingValues := setProp touChargingDefaults ''stopSOC'' (JNum 150)\<rparr>" quietChannel]
          percentage_150_issues_no_write
            [of "initialSystem\<lparr>touDischargingValues := setProp touDischargingDefaults ''dischargePower'' (JNum 150)\<rparr>" quietChannel]
          percentage_150_issues_no_write
            [of "initialSystem_r1\<lparr>touChargingValues := setProp touChargingDefaults_r1 ''uwAC2BatVolt'' (JNum 150)\<rparr>" quietChannel]
          percentage_150_issues_no_write
            [of "initialSystem_r1\<lparr>touDischargingValues := setProp touDischargingDefaults_r1 ''batLowToUtiVolt'' (JNum 150)\<rparr>" quietChannel]
          1 2 3 4
    by simp
qed

section \<open>What a failed validation reports\<close>

text \<open>
  C5 as stated fails: the failure a caller sees is the same bare string whatever was
  violated. With \<open>chargePower\<close> at 150 the only violated field is \<open>chargePower\<close>;
  with \<open>stopSOC\<close> at 150 and \<open>startHour1\<close> at 99 the violated fields are those two;
  \<open>setTouCharging\<close> surfaces the same value in both cases, so the value lists no
  fields.
\<close>

theorem validation_failure_bare_string_counterexample:
  "fst (setTouCharging quietChannel
          (initialSystem\<lparr>touChargingValues := setProp touChargingDefaults ''chargePower'' (JNum 150)\<rparr>)) =
     Inl (ThrowString ''Error validating setTouCharging'') \<and>
   fst (setTouCharging quietChannel
          (initialSystem\<lparr>touChargingValues :=
             setProp (setProp touChargingDefaults ''stopSOC'' (JNum 150)) ''startHour1'' (JNum 99)\<rparr>)) =
     Inl (ThrowString ''Error validating setTouCharging'') \<and>
   violatedFields touChargingSchema (setProp touChargingDefaults ''chargePower'' (JNum 150)) =
     [''chargePower''] \<and>
   violatedFields touChargingSchema
     (setProp (setProp touChargingDefaults ''stopSOC'' (JNum 150)) ''startHour1'' (JNum 99)) =
     [''stopSOC'', ''startHour1'']"
proof -
  have s1: "setProp touChargingDefaults ''chargePower'' (JNum 150) =
      (''chargePower'', JNum 150) # tl touChargingDefaults"
    by (simp add: setProp_def touChargingDefaults_def)
  have s2: "setProp (setProp touChargingDefaults ''stopSOC'' (JNum 150)) ''startHour1'' (JNum 99) =
      [(''chargePower'', JNum 100), (''stopSOC'', JNum 150), (''ac'', JStr ''OFF''),
       (''startHour1'', JNum 99)] @ drop 4 touChargingDefaults"
    by (simp add: setProp_def touChargingDefaults_def)
  have v1: "violatedFields touChargingSchema (setProp touChargingDefaults ''chargePower'' (JNum 150)) =
     [''chargePower'']"
    unfolding s1 by (simp add: violatedFields_def propertyOk_def touChargingSchema_def touChargingDefaults_def)
  have v2: "violatedFields touChargingSchema
     (setProp (setProp touChargingDefaults ''stopSOC'' (JNum 150)) ''startHour1'' (JNum 99)) =
     [''stopSOC'', ''startHour1'']"
    unfolding s2 by (simp add: violatedFields_def propertyOk_def touChargingSchema_def touChargingDefaults_def)
  have n1: "\<not> validate touChargingSchema (setProp touChargingDefaults ''chargePower'' (JNum 150))"
    by (rule chargePower_150) (simp add: s1)
  have n2: "\<not> validate touChargingSchema
     (setProp (setProp touChargingDefaults ''stopSOC'' (JNum 150)) ''startHour1'' (JNum 99))"
    by (rule chargePower_150) (simp add: s2)
  show ?thesis
    using v1 v2 n1 n2 by (simp add: setTouCharging_def)
qed

text \<open>
  C5 as amended. When the cached values of a domain do not validate, the set command
  throws the fixed string \<open>Error validating setTouCharging\<close> (or
  \<open>Error validating setTouDischarging\<close>), the same for every set of violated fields,
  and leaves the cached values and the channel as they were. This holds in all three
  revisions.
\<close>

theorem validation_failure_throws_fixed_string:
  "(\<not> validate touChargingSchema (touChargingValues st) \<longrightarrow>
      setTouCharging chan st = (Inl (ThrowString ''Error validating setTouCharging''), st)) \<and>
   (\<not> validate touDischargingSchema (touDischargingValues st) \<longrightarrow>
      setTouDischarging chan st = (Inl (ThrowString ''Error validating setTouDischarging''), st)) \<and>
   (\<not> validate touChargingSchema_r1 (touChargingValues st) \<longrightarrow>
      setTouCharging_r1 chan st = (Inl (ThrowString ''Error validating setTouCharging''), st)) \<and>
   (\<not> validate touDischargingSchema_r1 (touDischargingValues st) \<longrightarrow>
      setTouDischarging_r1 chan st = (Inl (ThrowString ''Error validating setTouDischarging''), st) \<and>
      setTouDischarging_r2 chan st = (Inl (ThrowString ''Error validating setTouDischarging''), st)) \<and>
   (\<not> validate touChargingSchema_r2 (touChargingValues st) \<longrightarrow>
      setTouCharging_r2 chan st = (Inl (ThrowString ''Error validating setTouCharging''), st))"
  using setTouCharging_invalid setTouDischarging_invalid setTouCharging_r1_invalid
    setTouDischarging_r1_invalid setTouCharging_r2_invalid setTouDischarging_r2_invalid
  by blast

theorem validation_failure_throws_fixed_string_witness:
  "setTouCharging quietChannel (initialSystem\<lparr>touChargingValues := []\<rparr>) =
     (Inl (ThrowString ''Error validating setTouCharging''), initialSystem\<lparr>touChargingValues := []\<rparr>) \<and>
   setTouDischarging quietChannel (initialSystem\<lparr>touDischargingValues := []\<rparr>) =
     (Inl (ThrowString ''Error validating setTouDischarging''), initialSystem\<lparr>touDischargingValues := []\<rparr>) \<and>
   setTouCharging_r1 quietChannel (initialSystem\<lparr>touChargingValues := []\<rparr>) =
     (Inl (ThrowString ''Error validating setTouCharging''), initialSystem\<lparr>touChargingValues := []\<rparr>) \<and>
   setTouDischarging_r1 quietChannel (initialSystem\<lparr>touDischargingValues := []\<rparr>) =
     (Inl (ThrowString ''Error validating setTouDischarging''), initialSystem\<lparr>touDischargingValues := []\<rparr>) \<and>
   setTouDischarging_r2 quietChannel (initialSystem\<lparr>touDischargingValues := []\<rparr>) =
     (Inl (ThrowString ''Error validating setTouDischarging''), initialSystem\<lparr>touDischargingValues := []\<rparr>) \<and>
   setTouCharging_r2 quietChannel (initialSystem\<lparr>touChargingValues := []\<rparr>) =
     (Inl (ThrowString ''Error validating setTouCharging''), initialSystem\<lparr>touChargingValues := []\<rparr>)"
proof -
  have n: "\<not> validate touChargingSchema []" "\<not> validate touDischargingSchema []"
    "\<not> validate touChargingSchema_r1 []" "\<not> validate touDischargingSchema_r1 []"
    "\<not> validate touChargingSchema_r2 []"
    by (simp_all add: validate_def touChargingSchema_def touDischargingSchema_def
        touChargingSchema_r1_def touDischargingSchema_r1_def touChargingSchema_r2_def)
  show ?thesis
    using validation_failure_throws_fixed_string [of "initialSystem\<lparr>touChargingValues := []\<rparr>" quietChannel]
      validation_failure_throws_fixed_string [of "initialSystem\<lparr>touDischargingValues := []\<rparr>" quietChannel]
      n
    by simp
qed

section \<open>The order of the writes\<close>




section \<open>Merging and flushing\<close>

subsection \<open>One recognised key\<close>

lemma updateControl_object:
  assumes "parse (replaceQuotes msg) = Some (JObj kvs)"
  shows "updateControl parse subTopic msg st =
           (controlData (foldl (updateKey subTopic) st kvs), foldl (updateKey subTopic) st kvs)"
  using assms by (simp add: updateControl_def Let_def)

lemma updateKey_discharging:
  assumes "getProp (touDischargingValues st) k \<noteq> JUndefined"
  shows "updateKey ''touDischarging'' st (k, v) =
           st\<lparr>touDischargingValues := AList.update k v (touDischargingValues st)\<rparr>"
  using getProp_defined_own [OF assms] getProp_setProp_own [OF assms]
  by (simp add: updateKey_def)

lemma updateKey_charging:
  assumes "getProp (touChargingValues st) k \<noteq> JUndefined"
  shows "updateKey ''touCharging'' st (k, v) =
           st\<lparr>touChargingValues := AList.update k v (touChargingValues st)\<rparr>"
  using getProp_defined_own [OF assms] getProp_setProp_own [OF assms]
  by (simp add: updateKey_def)

lemma discharging_words_after_stopSOC:
  "touDischargingWords1 (AList.update ''dischargeStopSOC'' v d) = [getProp d ''dischargePower'', v]"
  "touDischargingWords2 (AList.update ''dischargeStopSOC'' v d) = touDischargingWords2 d"
  by (simp_all add: touDischargingWords1_def touDischargingWords2_def getProp_update)

lemma dischargeStopSOC_5_valid:
  assumes "validate touDischargingSchema d"
  shows "validate touDischargingSchema (AList.update ''dischargeStopSOC'' (JNum 5) d)"
  using assms
proof (rule validate_update)
  show "JNum 5 \<noteq> JUndefined" by simp
  show "conforms ps (JNum 5)" if "(''dischargeStopSOC'', ps) \<in> set (properties touDischargingSchema)" for ps
    using that by (simp add: touDischargingSchema_def)
  show "''dischargeStopSOC'' \<in> fst ` set (properties touDischargingSchema)"
    by (simp add: touDischargingSchema_def)
qed

lemma toInt32_floor: "0 \<le> r \<Longrightarrow> toInt32 (JNum r) = toInt32 (JNum (of_int \<lfloor>r\<rfloor>))"
  by (simp add: truncRat_def)

lemma pack_value_rat:
  fixes h m :: rat
  assumes "0 \<le> h" "h \<le> 23" "0 \<le> m" "m \<le> 59"
  shows "jsOr (jsShl (JNum h) 8) (JNum m) = JNum (of_int (\<lfloor>h\<rfloor> * 256 + \<lfloor>m\<rfloor>))"
proof -
  have h: "0 \<le> \<lfloor>h\<rfloor>" "\<lfloor>h\<rfloor> < 2 ^ 23"
    using assms(1,2) by (simp_all add: floor_less_iff)
  have m: "0 \<le> \<lfloor>m\<rfloor>" "\<lfloor>m\<rfloor> < 2 ^ 8"
    using assms(3,4) by (simp_all add: floor_less_iff)
  have "jsOr (jsShl (JNum h) 8) (JNum m) =
      jsOr (jsShl (JNum (of_int \<lfloor>h\<rfloor>)) 8) (JNum (of_int \<lfloor>m\<rfloor>))"
    unfolding jsOr_def jsShl_def
    by (simp only: toInt32_floor [OF assms(1)] toInt32_floor [OF assms(3)])
  then show ?thesis
    by (simp only: pack_value [OF h m])
qed

lemma conforms_number:
  "conforms (NumberSchema lo hi) x \<Longrightarrow> \<exists>r. x = JNum r \<and> lo \<le> r \<and> r \<le> hi"
  by (cases x) simp_all

lemma discharging_boundary_fields:
  assumes "validate touDischargingSchema d" "(hf, mf, i) \<in> set packedBoundaries"
  shows "\<exists>h m. getProp d hf = JNum h \<and> getProp d mf = JNum m \<and>
           0 \<le> h \<and> h \<le> 23 \<and> 0 \<le> m \<and> m \<le> 59"
proof -
  have s: "hf \<in> set (required touDischargingSchema)" "mf \<in> set (required touDischargingSchema)"
    "(hf, NumberSchema 0 23) \<in> set (properties touDischargingSchema)"
    "(mf, NumberSchema 0 59) \<in> set (properties touDischargingSchema)"
    using assms(2) unfolding packedBoundaries_iff
    by (elim disjE conjE; simp add: touDischargingSchema_def)+
  have "conforms (NumberSchema 0 23) (getProp d hf)"
    using validate_property [OF assms(1) s(3)] validate_required [OF assms(1) s(1)] by simp
  moreover have "conforms (NumberSchema 0 59) (getProp d mf)"
    using validate_property [OF assms(1) s(4)] validate_required [OF assms(1) s(2)] by simp
  ultimately show ?thesis
    using conforms_number by blast
qed

lemma discharging_packed_word:
  assumes "validate touDischargingSchema d" "(hf, mf, i) \<in> set packedBoundaries"
  shows "\<exists>h m. getProp d hf = JNum h \<and> getProp d mf = JNum m \<and>
           0 \<le> h \<and> h \<le> 23 \<and> 0 \<le> m \<and> m \<le> 59 \<and>
           touDischargingWords2 d ! i = JNum (of_int (\<lfloor>h\<rfloor> * 256 + \<lfloor>m\<rfloor>))"
proof -
  obtain h m where f: "getProp d hf = JNum h" "getProp d mf = JNum m"
    and r: "0 \<le> h" "h \<le> 23" "0 \<le> m" "m \<le> 59"
    using discharging_boundary_fields [OF assms] by blast
  have "touDischargingWords2 d ! i = JNum (of_int (\<lfloor>h\<rfloor> * 256 + \<lfloor>m\<rfloor>))"
    using pack_value_rat [OF r] f by (simp only: touDischargingWords2_nth [OF assms(2)])
  then show ?thesis
    using f r by blast
qed

lemma switchWords_iff:
  "(sf, i) \<in> set switchWords \<longleftrightarrow>
     sf = ''enablePeriod1'' \<and> i = 2 \<or> sf = ''enablePeriod2'' \<and> i = 5 \<or> sf = ''enablePeriod3'' \<and> i = 8"
  unfolding switchWords_def by simp

lemma discharging_switch_word:
  assumes "(sf, i) \<in> set switchWords"
  shows "touDischargingWords2 d ! i = (if getProp d sf = JStr ''ON'' then JNum 1 else JNum 0)"
  using assms unfolding switchWords_iff
  by (elim disjE conjE; simp add: touDischargingWords2_def onOffWord_def)

lemma touDischargingWords2_length: "length (touDischargingWords2 d) = 9"
  by (simp add: touDischargingWords2_def)

lemma nine_words:
  "length ws = 9 \<Longrightarrow> ws = [ws ! 0, ws ! 1, ws ! 2, ws ! 3, ws ! 4, ws ! 5, ws ! 6, ws ! 7, ws ! 8]"
  by (rule nth_equalityI) (auto simp: less_Suc_eq numeral_eq_Suc)

text \<open>
  C3. Take any state whose cached \<open>touDischarging\<close> values validate, merge the update
  \<open>{dischargeStopSOC: 5}\<close> and run \<open>setTouDischarging\<close>. The merge changes that one
  property and no other. The first write, to address 1070, carries the cached
  \<open>dischargePower\<close> and 5. The second write, to address 1080, carries nine words
  made from the fields that were cached before the merge: for each of the six
  boundaries, the cached hour \<open>h\<close> and minute \<open>m\<close> are numbers within their ranges
  and the boundary's word is \<open>256 * floor h + floor m\<close>; for each of the three
  switches the word is 1 when the cached switch is the string \<open>ON\<close> and 0 otherwise.
  (The second write is issued when the first call does not throw.)
\<close>

theorem merge_then_flush_keeps_cached_fields:
  assumes "parse (replaceQuotes msg) = Some (JObj [(''dischargeStopSOC'', JNum 5)])"
    and "validate touDischargingSchema (touDischargingValues st)"
    and "st1 = snd (updateControl parse ''touDischarging'' msg st)"
  shows "touDischargingValues st1 =
           AList.update ''dischargeStopSOC'' (JNum 5) (touDischargingValues st) \<and>
         (\<forall>k. k \<noteq> ''dischargeStopSOC'' \<longrightarrow>
            getProp (touDischargingValues st1) k = getProp (touDischargingValues st) k) \<and>
         (\<exists>ws. callsIssued st1 (setTouDischarging chan st1) =
                 (if isl (chan (channelCalls st1)
                            (WriteRegs 1070 [getProp (touDischargingValues st) ''dischargePower'', JNum 5]))
                  then [WriteRegs 1070 [getProp (touDischargingValues st) ''dischargePower'', JNum 5]]
                  else [WriteRegs 1070 [getProp (touDischargingValues st) ''dischargePower'', JNum 5],
                        WriteRegs 1080 ws]) \<and>
               length ws = 9 \<and>
               (\<forall>(hf, mf, i) \<in> set packedBoundaries.
                  \<exists>h m. getProp (touDischargingValues st) hf = JNum h \<and>
                        getProp (touDischargingValues st) mf = JNum m \<and>
                        0 \<le> h \<and> h \<le> 23 \<and> 0 \<le> m \<and> m \<le> 59 \<and>
                        ws ! i = JNum (of_int (\<lfloor>h\<rfloor> * 256 + \<lfloor>m\<rfloor>))) \<and>
               (\<forall>(sf, i) \<in> set switchWords.
                  ws ! i = (if getProp (touDischargingValues st) sf = JStr ''ON'' then JNum 1 else JNum 0)))"
proof -
  have "''dischargeStopSOC'' \<in> set (required touDischargingSchema)"
    by (simp add: touDischargingSchema_def)
  then have own: "getProp (touDischargingValues st) ''dischargeStopSOC'' \<noteq> JUndefined"
    using assms(2) by (rule validate_required [rotated])
  have st1: "st1 = st\<lparr>touDischargingValues :=
      AList.update ''dischargeStopSOC'' (JNum 5) (touDischargingValues st)\<rparr>"
    unfolding assms(3) updateControl_object [of parse msg, OF assms(1)]
    by (simp add: updateKey_discharging [OF own])
  have v: "validate touDischargingSchema (touDischargingValues st1)"
    unfolding st1 using dischargeStopSOC_5_valid [OF assms(2)] by simp
  have a: "touDischargingValues st1 =
           AList.update ''dischargeStopSOC'' (JNum 5) (touDischargingValues st)"
    unfolding st1 by simp
  have b: "\<forall>k. k \<noteq> ''dischargeStopSOC'' \<longrightarrow>
            getProp (touDischargingValues st1) k = getProp (touDischargingValues st) k"
    unfolding st1 by (simp add: getProp_update)
  have c: "callsIssued st1 (setTouDischarging chan st1) =
                 (if isl (chan (channelCalls st1)
                            (WriteRegs 1070 [getProp (touDischargingValues st) ''dischargePower'', JNum 5]))
                  then [WriteRegs 1070 [getProp (touDischargingValues st) ''dischargePower'', JNum 5]]
                  else [WriteRegs 1070 [getProp (touDischargingValues st) ''dischargePower'', JNum 5],
                        WriteRegs 1080 (touDischargingWords2 (touDischargingValues st))])"
    unfolding setTouDischarging_valid [OF v]
    unfolding st1
    by (simp add: discharging_words_after_stopSOC getProp_update)
  have p: "\<forall>(hf, mf, i) \<in> set packedBoundaries.
                  \<exists>h m. getProp (touDischargingValues st) hf = JNum h \<and>
                        getProp (touDischargingValues st) mf = JNum m \<and>
                        0 \<le> h \<and> h \<le> 23 \<and> 0 \<le> m \<and> m \<le> 59 \<and>
                        touDischargingWords2 (touDischargingValues st) ! i =
                          JNum (of_int (\<lfloor>h\<rfloor> * 256 + \<lfloor>m\<rfloor>))"
    using discharging_packed_word [OF assms(2)] by blast
  have s: "\<forall>(sf, i) \<in> set switchWords.
      touDischargingWords2 (touDischargingValues st) ! i =
        (if getProp (touDischargingValues st) sf = JStr ''ON'' then JNum 1 else JNum 0)"
    using discharging_switch_word by blast
  from a b c p s touDischargingWords2_length show ?thesis
    by blast
qed

theorem merge_then_flush_keeps_cached_fields_witness:
  "callsIssued
     (snd (updateControl sampleParse ''touDischarging'' ''{'dischargeStopSOC': 5}''
        (initialSystem\<lparr>touDischargingValues := sampleDischarging\<rparr>)))
     (setTouDischarging quietChannel
        (snd (updateControl sampleParse ''touDischarging'' ''{'dischargeStopSOC': 5}''
          (initialSystem\<lparr>touDischargingValues := sampleDischarging\<rparr>)))) =
   [WriteRegs 1070 [JNum 80, JNum 5],
    WriteRegs 1080 [JNum 0x061E, JNum 0x173B, JNum 1, JNum 0x0C00, JNum 0x0C2D, JNum 0, JNum 0, JNum 0x0001, JNum 1]]"
proof -
  let ?st = "initialSystem\<lparr>touDischargingValues := sampleDischarging\<rparr>"
  let ?st1 = "snd (updateControl sampleParse ''touDischarging'' ''{'dischargeStopSOC': 5}'' ?st)"
  have p: "sampleParse (replaceQuotes ''{'dischargeStopSOC': 5}'') =
      Some (JObj [(''dischargeStopSOC'', JNum 5)])"
    by (simp add: sampleParse_def)
  have d: "touDischargingValues ?st = sampleDischarging"
    by simp
  have v: "validate touDischargingSchema (touDischargingValues ?st)"
    unfolding d by (simp add: validate_def propertyOk_def touDischargingSchema_def sampleDischarging_def)
  from merge_then_flush_keeps_cached_fields [of sampleParse "''{'dischargeStopSOC': 5}''", OF p v refl, of quietChannel]
  obtain ws where c: "callsIssued ?st1 (setTouDischarging quietChannel ?st1) =
        [WriteRegs 1070 [JNum 80, JNum 5], WriteRegs 1080 ws]"
    and l: "length ws = 9"
    and b: "\<forall>(hf, mf, i) \<in> set packedBoundaries.
              \<exists>h m. getProp sampleDischarging hf = JNum h \<and> getProp sampleDischarging mf = JNum m \<and>
                    0 \<le> h \<and> h \<le> 23 \<and> 0 \<le> m \<and> m \<le> 59 \<and>
                    ws ! i = JNum (of_int (\<lfloor>h\<rfloor> * 256 + \<lfloor>m\<rfloor>))"
    and s: "\<forall>(sf, i) \<in> set switchWords.
              ws ! i = (if getProp sampleDischarging sf = JStr ''ON'' then JNum 1 else JNum 0)"
    unfolding d by (auto simp: quietChannel_def sampleDischarging_def)
  have w: "ws ! 0 = JNum 0x061E" "ws ! 1 = JNum 0x173B" "ws ! 3 = JNum 0x0C00"
    "ws ! 4 = JNum 0x0C2D" "ws ! 6 = JNum 0" "ws ! 7 = JNum 0x0001"
    using b by (auto simp: packedBoundaries_def sampleDischarging_def)
  have o: "ws ! 2 = JNum 1" "ws ! 5 = JNum 0" "ws ! 8 = JNum 1"
    using s by (simp_all add: switchWords_def sampleDischarging_def)
  have "ws = [ws ! 0, ws ! 1, ws ! 2, ws ! 3, ws ! 4, ws ! 5, ws ! 6, ws ! 7, ws ! 8]"
    using l by (rule nine_words)
  then have "ws = [JNum 0x061E, JNum 0x173B, JNum 1, JNum 0x0C00, JNum 0x0C2D, JNum 0, JNum 0, JNum 0x0001, JNum 1]"
    unfolding w o .
  then show ?thesis
    using c by simp
qed

subsection \<open>Any parsed update\<close>

lemma updateKey_other_charging:
  "k' \<noteq> k \<Longrightarrow>
   getProp (touChargingValues (updateKey subTopic st (k', v'))) k = getProp (touChargingValues st) k"
  by (simp add: updateKey_def setProp_def getProp_update)

lemma updateKey_other_discharging:
  "k' \<noteq> k \<Longrightarrow>
   getProp (touDischargingValues (updateKey subTopic st (k', v'))) k = getProp (touDischargingValues st) k"
  by (simp add: updateKey_def setProp_def getProp_update)

lemma foldl_updateKey_absent:
  "k \<notin> fst ` set kvs \<Longrightarrow>
   getProp (touChargingValues (foldl (updateKey subTopic) st kvs)) k = getProp (touChargingValues st) k \<and>
   getProp (touDischargingValues (foldl (updateKey subTopic) st kvs)) k = getProp (touDischargingValues st) k"
proof (induction kvs arbitrary: st)
  case Nil
  then show ?case by simp
next
  case (Cons kv kvs)
  obtain k' v' where kv: "kv = (k', v')" by (cases kv)
  have ne: "k' \<noteq> k" and rest: "k \<notin> fst ` set kvs"
    using Cons.prems kv by auto
  show ?case
    using Cons.IH [OF rest, of "updateKey subTopic st kv"]
    by (simp add: kv updateKey_other_charging [OF ne] updateKey_other_discharging [OF ne])
qed

lemma updateKey_same_charging:
  "getProp (touChargingValues st) k \<noteq> JUndefined \<Longrightarrow>
   getProp (touChargingValues (updateKey ''touCharging'' st (k, v))) k = v"
  by (simp add: updateKey_charging getProp_update)

lemma updateKey_same_discharging:
  "getProp (touDischargingValues st) k \<noteq> JUndefined \<Longrightarrow>
   getProp (touDischargingValues (updateKey ''touDischarging'' st (k, v))) k = v"
  by (simp add: updateKey_discharging getProp_update)

lemma foldl_updateKey_charging:
  assumes "distinct (map fst kvs)" "(k, v) \<in> set kvs"
    and "getProp (touChargingValues st) k \<noteq> JUndefined"
  shows "getProp (touChargingValues (foldl (updateKey ''touCharging'') st kvs)) k = v"
  using assms
proof (induction kvs arbitrary: st)
  case Nil
  then show ?case by simp
next
  case (Cons kv kvs)
  obtain k' v' where kv: "kv = (k', v')" by (cases kv)
  show ?case
  proof (cases "kv = (k, v)")
    case True
    then have "k \<notin> fst ` set kvs"
      using Cons.prems(1) by auto
    then show ?thesis
      using foldl_updateKey_absent [of k kvs "''touCharging''" "updateKey ''touCharging'' st (k, v)"]
        updateKey_same_charging [OF Cons.prems(3), of v] True
      by simp
  next
    case False
    then have mem: "(k, v) \<in> set kvs"
      using Cons.prems(2) by simp
    then have "k \<in> fst ` set kvs"
      by force
    then have ne: "k' \<noteq> k"
      using Cons.prems(1) kv by auto
    have "getProp (touChargingValues (updateKey ''touCharging'' st kv)) k \<noteq> JUndefined"
      using Cons.prems(3) by (simp add: kv updateKey_other_charging [OF ne])
    then show ?thesis
      using Cons.IH [OF _ mem, of "updateKey ''touCharging'' st kv"] Cons.prems(1)
      by simp
  qed
qed

lemma foldl_updateKey_discharging:
  assumes "distinct (map fst kvs)" "(k, v) \<in> set kvs"
    and "getProp (touDischargingValues st) k \<noteq> JUndefined"
  shows "getProp (touDischargingValues (foldl (updateKey ''touDischarging'') st kvs)) k = v"
  using assms
proof (induction kvs arbitrary: st)
  case Nil
  then show ?case by simp
next
  case (Cons kv kvs)
  obtain k' v' where kv: "kv = (k', v')" by (cases kv)
  show ?case
  proof (cases "kv = (k, v)")
    case True
    then have "k \<notin> fst ` set kvs"
      using Cons.prems(1) by auto
    then show ?thesis
      using foldl_updateKey_absent [of k kvs "''touDischarging''" "updateKey ''touDischarging'' st (k, v)"]
        updateKey_same_discharging [OF Cons.prems(3), of v] True
      by simp
  next
    case False
    then have mem: "(k, v) \<in> set kvs"
      using Cons.prems(2) by simp
    then have "k \<in> fst ` set kvs"
      by force
    then have ne: "k' \<noteq> k"
      using Cons.prems(1) kv by auto
    have "getProp (touDischargingValues (updateKey ''touDischarging'' st kv)) k \<noteq> JUndefined"
      using Cons.prems(3) by (simp add: kv updateKey_other_discharging [OF ne])
    then show ?thesis
      using Cons.IH [OF _ mem, of "updateKey ''touDischarging'' st kv"] Cons.prems(1)
      by simp
  qed
qed

lemma foldl_updateKey_channel:
  "channelCalls (foldl (updateKey subTopic) st kvs) = channelCalls st"
  by (induction kvs arbitrary: st) (simp_all add: updateKey_def)

lemma foldl_updateKey_charging_only:
  "touDischargingValues (foldl (updateKey ''touCharging'') st kvs) = touDischargingValues st"
  by (induction kvs arbitrary: st) (simp_all add: updateKey_def)

lemma foldl_updateKey_discharging_only:
  "touChargingValues (foldl (updateKey ''touDischarging'') st kvs) = touChargingValues st"
  by (induction kvs arbitrary: st) (simp_all add: updateKey_def)

text \<open>
  C10. \<open>updateControl\<close> checks neither range nor type. For every parsed update, every
  key of it that is a property of the addressed domain (with a value other than
  undefined) and every value given for that key: the cached domain holds exactly that
  value afterwards; the method returns two entries, \<open>touCharging\<close> with the cached
  charging values and \<open>touDischarging\<close> with the cached discharging values, so the
  entry of the addressed domain holds the value under its key and the other entry is
  what it was before. A value that does not conform to the key's schema is only rejected
  later: the next set command of the domain throws its validation error and changes
  nothing.
\<close>

theorem merge_stores_any_value:
  assumes "parse (replaceQuotes msg) = Some (JObj kvs)"
    and "distinct (map fst kvs)"
    and "(k, v) \<in> set kvs"
  shows "(getProp (touChargingValues st) k \<noteq> JUndefined \<longrightarrow>
            getProp (touChargingValues (snd (updateControl parse ''touCharging'' msg st))) k = v \<and>
            fst (updateControl parse ''touCharging'' msg st) =
              [(''touCharging'', touChargingValues (snd (updateControl parse ''touCharging'' msg st))),
               (''touDischarging'', touDischargingValues st)] \<and>
            (\<exists>c. (''touCharging'', c) \<in> set (fst (updateControl parse ''touCharging'' msg st)) \<and>
                 getProp c k = v) \<and>
            fst (updateControl parse ''touCharging'' msg st) =
              controlData (snd (updateControl parse ''touCharging'' msg st)) \<and>
            (\<forall>ps. (k, ps) \<in> set (properties touChargingSchema) \<and> v \<noteq> JUndefined \<and> \<not> conforms ps v \<longrightarrow>
               setTouCharging chan (snd (updateControl parse ''touCharging'' msg st)) =
                 (Inl (ThrowString ''Error validating setTouCharging''),
                  snd (updateControl parse ''touCharging'' msg st)))) \<and>
         (getProp (touDischargingValues st) k \<noteq> JUndefined \<longrightarrow>
            getProp (touDischargingValues (snd (updateControl parse ''touDischarging'' msg st))) k = v \<and>
            fst (updateControl parse ''touDischarging'' msg st) =
              [(''touCharging'', touChargingValues st),
               (''touDischarging'', touDischargingValues (snd (updateControl parse ''touDischarging'' msg st)))] \<and>
            (\<exists>d. (''touDischarging'', d) \<in> set (fst (updateControl parse ''touDischarging'' msg st)) \<and>
                 getProp d k = v) \<and>
            fst (updateControl parse ''touDischarging'' msg st) =
              controlData (snd (updateControl parse ''touDischarging'' msg st)) \<and>
            (\<forall>ps. (k, ps) \<in> set (properties touDischargingSchema) \<and> v \<noteq> JUndefined \<and> \<not> conforms ps v \<longrightarrow>
               setTouDischarging chan (snd (updateControl parse ''touDischarging'' msg st)) =
                 (Inl (ThrowString ''Error validating setTouDischarging''),
                  snd (updateControl parse ''touDischarging'' msg st))))"
proof (intro conjI impI allI)
  assume d: "getProp (touChargingValues st) k \<noteq> JUndefined"
  let ?st' = "snd (updateControl parse ''touCharging'' msg st)"
  show g: "getProp (touChargingValues ?st') k = v"
    unfolding updateControl_object [of parse msg, OF assms(1)]
    using foldl_updateKey_charging [OF assms(2,3) d] by simp
  show r: "fst (updateControl parse ''touCharging'' msg st) =
      [(''touCharging'', touChargingValues ?st'), (''touDischarging'', touDischargingValues st)]"
    unfolding updateControl_object [of parse msg, OF assms(1)]
    by (simp add: controlData_def foldl_updateKey_charging_only)
  have "(''touCharging'', touChargingValues ?st') \<in> set (fst (updateControl parse ''touCharging'' msg st))"
    unfolding r by simp
  then show "\<exists>c. (''touCharging'', c) \<in> set (fst (updateControl parse ''touCharging'' msg st)) \<and>
                 getProp c k = v"
    using g by blast
  show "fst (updateControl parse ''touCharging'' msg st) = controlData ?st'"
    unfolding updateControl_object [of parse msg, OF assms(1)] by simp
  fix ps
  assume "(k, ps) \<in> set (properties touChargingSchema) \<and> v \<noteq> JUndefined \<and> \<not> conforms ps v"
  then have "\<not> validate touChargingSchema (touChargingValues ?st')"
    using validate_violation [of k ps touChargingSchema "touChargingValues ?st'"] g by simp
  then show "setTouCharging chan ?st' = (Inl (ThrowString ''Error validating setTouCharging''), ?st')"
    by (rule setTouCharging_invalid)
next
  assume d: "getProp (touDischargingValues st) k \<noteq> JUndefined"
  let ?st' = "snd (updateControl parse ''touDischarging'' msg st)"
  show g: "getProp (touDischargingValues ?st') k = v"
    unfolding updateControl_object [of parse msg, OF assms(1)]
    using foldl_updateKey_discharging [OF assms(2,3) d] by simp
  show r: "fst (updateControl parse ''touDischarging'' msg st) =
      [(''touCharging'', touChargingValues st), (''touDischarging'', touDischargingValues ?st')]"
    unfolding updateControl_object [of parse msg, OF assms(1)]
    by (simp add: controlData_def foldl_updateKey_discharging_only)
  have "(''touDischarging'', touDischargingValues ?st') \<in> set (fst (updateControl parse ''touDischarging'' msg st))"
    unfolding r by simp
  then show "\<exists>d. (''touDischarging'', d) \<in> set (fst (updateControl parse ''touDischarging'' msg st)) \<and>
                 getProp d k = v"
    using g by blast
  show "fst (updateControl parse ''touDischarging'' msg st) = controlData ?st'"
    unfolding updateControl_object [of parse msg, OF assms(1)] by simp
  fix ps
  assume "(k, ps) \<in> set (properties touDischargingSchema) \<and> v \<noteq> JUndefined \<and> \<not> conforms ps v"
  then have "\<not> validate touDischargingSchema (touDischargingValues ?st')"
    using validate_violation [of k ps touDischargingSchema "touDischargingValues ?st'"] g by simp
  then show "setTouDischarging chan ?st' = (Inl (ThrowString ''Error validating setTouDischarging''), ?st')"
    by (rule setTouDischarging_invalid)
qed

theorem merge_stores_any_value_witness:
  "getProp (touChargingValues (snd (updateControl sampleParse ''touCharging''
       ''{'startHour1': 99, 'chargePower': 150}'' initialSystem))) ''startHour1'' = JNum 99 \<and>
   getProp (touChargingValues (snd (updateControl sampleParse ''touCharging''
       ''{'startHour1': 99, 'chargePower': 150}'' initialSystem))) ''chargePower'' = JNum 150 \<and>
   map fst (fst (updateControl sampleParse ''touCharging''
       ''{'startHour1': 99, 'chargePower': 150}'' initialSystem)) = [''touCharging'', ''touDischarging''] \<and>
   getProp (snd (hd (fst (updateControl sampleParse ''touCharging''
       ''{'startHour1': 99, 'chargePower': 150}'' initialSystem)))) ''startHour1'' = JNum 99 \<and>
   getProp (snd (hd (fst (updateControl sampleParse ''touCharging''
       ''{'startHour1': 99, 'chargePower': 150}'' initialSystem)))) ''chargePower'' = JNum 150 \<and>
   snd (fst (updateControl sampleParse ''touCharging''
       ''{'startHour1': 99, 'chargePower': 150}'' initialSystem) ! 1) = touDischargingDefaults \<and>
   fst (setTouCharging quietChannel (snd (updateControl sampleParse ''touCharging''
       ''{'startHour1': 99, 'chargePower': 150}'' initialSystem))) =
     Inl (ThrowString ''Error validating setTouCharging'') \<and>
   getProp (touDischargingValues (snd (updateControl sampleParse ''touDischarging''
       ''{'dischargeStopSOC': 5}'' (initialSystem\<lparr>touDischargingValues :=
          [(''dischargePower'', JNum 80), (''dischargeStopSOC'', JNum 20)]\<rparr>)))) ''dischargeStopSOC'' = JNum 5"
proof -
  let ?r = "updateControl sampleParse ''touCharging'' ''{'startHour1': 99, 'chargePower': 150}'' initialSystem"
  have p: "sampleParse (replaceQuotes ''{'startHour1': 99, 'chargePower': 150}'') =
      Some (JObj [(''startHour1'', JNum 99), (''chargePower'', JNum 150)])"
    by (simp add: sampleParse_def replaceQuotes_def)
  have d: "distinct (map fst [(''startHour1'', JNum 99), (''chargePower'', JNum 150)])"
    by simp
  have o: "getProp (touChargingValues initialSystem) ''startHour1'' \<noteq> JUndefined"
    "getProp (touChargingValues initialSystem) ''chargePower'' \<noteq> JUndefined"
    by (simp_all add: initialSystem_def touChargingDefaults_def)
  have m: "(''startHour1'', JNum 99) \<in> set [(''startHour1'', JNum 99), (''chargePower'', JNum 150)]"
    "(''chargePower'', JNum 150) \<in> set [(''startHour1'', JNum 99), (''chargePower'', JNum 150)]"
    by simp_all
  have s: "(''startHour1'', NumberSchema 0 23) \<in> set (properties touChargingSchema)"
    by (simp add: touChargingSchema_def)
  note t1 = merge_stores_any_value [of sampleParse "''{'startHour1': 99, 'chargePower': 150}''",
        OF p d m(1), of initialSystem quietChannel,
        THEN conjunct1, THEN mp, OF o(1)]
  note t2 = merge_stores_any_value [of sampleParse "''{'startHour1': 99, 'chargePower': 150}''",
        OF p d m(2), of initialSystem quietChannel,
        THEN conjunct1, THEN mp, OF o(2)]
  have c: "(''startHour1'', NumberSchema 0 23) \<in> set (properties touChargingSchema) \<and>
      JNum 99 \<noteq> JUndefined \<and> \<not> conforms (NumberSchema 0 23) (JNum 99)"
    using s by simp
  have 1: "getProp (touChargingValues (snd ?r)) ''startHour1'' = JNum 99"
    using t1 by (rule conjunct1)
  have 2: "getProp (touChargingValues (snd ?r)) ''chargePower'' = JNum 150"
    using t2 by (rule conjunct1)
  have r: "fst ?r = [(''touCharging'', touChargingValues (snd ?r)),
                     (''touDischarging'', touDischargingValues initialSystem)]"
    using t1 [THEN conjunct2, THEN conjunct1] .
  have 3: "map fst (fst ?r) = [''touCharging'', ''touDischarging'']"
    unfolding r by simp
  have 4: "getProp (snd (hd (fst ?r))) ''startHour1'' = JNum 99"
    "getProp (snd (hd (fst ?r))) ''chargePower'' = JNum 150"
    unfolding r using 1 2 by simp_all
  have 5: "snd (fst ?r ! 1) = touDischargingDefaults"
    unfolding r by (simp add: initialSystem_def)
  have 6: "fst (setTouCharging quietChannel (snd ?r)) =
     Inl (ThrowString ''Error validating setTouCharging'')"
    using t1 [THEN conjunct2, THEN conjunct2, THEN conjunct2, THEN conjunct2,
        THEN spec, of "NumberSchema 0 23", THEN mp, OF c]
    by simp
  have p': "sampleParse (replaceQuotes ''{'dischargeStopSOC': 5}'') =
      Some (JObj [(''dischargeStopSOC'', JNum 5)])"
    by (simp add: sampleParse_def)
  have d': "distinct (map fst [(''dischargeStopSOC'', JNum 5)])"
    and m': "(''dischargeStopSOC'', JNum 5) \<in> set [(''dischargeStopSOC'', JNum 5)]"
    by simp_all
  have o': "getProp (touDischargingValues (initialSystem\<lparr>touDischargingValues :=
          [(''dischargePower'', JNum 80), (''dischargeStopSOC'', JNum 20)]\<rparr>)) ''dischargeStopSOC'' \<noteq> JUndefined"
    by simp
  have 7: "getProp (touDischargingValues (snd (updateControl sampleParse ''touDischarging''
       ''{'dischargeStopSOC': 5}'' (initialSystem\<lparr>touDischargingValues :=
          [(''dischargePower'', JNum 80), (''dischargeStopSOC'', JNum 20)]\<rparr>)))) ''dischargeStopSOC'' = JNum 5"
    using merge_stores_any_value [of sampleParse "''{'dischargeStopSOC': 5}''",
        OF p' d' m', of _ quietChannel, THEN conjunct2, THEN mp, OF o']
    by (rule conjunct1)
  from 1 2 3 4 5 6 7 show ?thesis by (intro conjI)
qed

section \<open>Unknown commands\<close>

text \<open>
  C7. When the parsed command's \<open>command\<close> property is a string other than the five
  recognised names, \<open>sendCommand\<close> throws the string \<open>Unknown command: \<close> followed by
  that name. The failure is a value handed to the caller (the rejection of the promise
  that \<open>sendCommand\<close> returns); the cached values of both domains and the channel's
  record stay exactly as they were.
\<close>

theorem unknown_command_is_reported:
  assumes "parse commandString = Some command"
    and "commandOf command = Inr (JStr name)"
    and "name \<notin> {''setTouCharging'', ''getTouCharging'', ''setTouDischarging'',
                   ''getTouDischarging'', ''getTime''}"
  shows "sendCommand parse chan commandString st =
           (Inl (ThrowString (''Unknown command: '' @ name)), st) \<and>
         touChargingValues (snd (sendCommand parse chan commandString st)) = touChargingValues st \<and>
         touDischargingValues (snd (sendCommand parse chan commandString st)) = touDischargingValues st \<and>
         callsIssued st (sendCommand parse chan commandString st) = []"
proof -
  have n: "name \<noteq> ''setTouCharging''" "name \<noteq> ''getTouCharging''" "name \<noteq> ''setTouDischarging''"
    "name \<noteq> ''getTouDischarging''" "name \<noteq> ''getTime''"
    using assms(3) by blast+
  have "sendCommand parse chan commandString st =
           (Inl (ThrowString (''Unknown command: '' @ name)), st)"
    using n by (simp add: sendCommand_def assms(1) assms(2))
  then show ?thesis
    by simp
qed

theorem unknown_command_is_reported_witness:
  "sendCommand sampleParse quietChannel (replaceQuotes ''{'command': 'unknownThing'}'') initialSystem =
     (Inl (ThrowString ''Unknown command: unknownThing''), initialSystem)"
proof -
  have p: "sampleParse (replaceQuotes ''{'command': 'unknownThing'}'') =
      Some (JObj [(''command'', JStr ''unknownThing'')])"
    by (simp add: sampleParse_def replaceQuotes_def)
  have c: "commandOf (JObj [(''command'', JStr ''unknownThing'')]) = Inr (JStr ''unknownThing'')"
    by simp
  have n: "''unknownThing'' \<notin> {''setTouCharging'', ''getTouCharging'', ''setTouDischarging'',
                   ''getTouDischarging'', ''getTime''}"
    by simp
  show ?thesis
    using unknown_command_is_reported [of sampleParse, OF p c n, of quietChannel initialSystem]
    by simp
qed

section \<open>Messages that are not a field-value mapping\<close>










section \<open>Further properties of the decoding and merging code\<close>

lemma statusMap_unknown: "12 < n \<Longrightarrow> map_of statusMap n = None"
  by (simp add: statusMap_def)

text \<open>
  A status or error code that the lookup table does not contain is passed through
  as its raw number: \<open>inverterStatus\<close> for every status word above 12, and
  \<open>inverterError\<close> for every error word the table has no entry for. Decoding a
  reply never fails.
\<close>

theorem unknown_code_passes_through:
  "(\<forall>data. data \<noteq> [] \<and> 12 < unat (data ! 0) \<longrightarrow>
       getProp (parseInputRegisters data) ''inverterStatus'' = JNum (of_nat (unat (data ! 0)))) \<and>
   (\<forall>data. 40 < length data \<and> map_of errorMap (unat (data ! 40)) = None \<longrightarrow>
       getProp (parseInputRegisters data) ''inverterError'' = JNum (of_nat (unat (data ! 40)))) \<and>
   (\<forall>table data i. i < length data \<and> map_of table (unat (data ! i)) = None \<longrightarrow>
       lookupOrRaw table data i = JNum (of_nat (unat (data ! i))))"
proof (intro conjI allI impI)
  fix data :: "16 word list"
  assume a: "data \<noteq> [] \<and> 12 < unat (data ! 0)"
  then have "map_of statusMap (unat (data ! 0)) = None"
    using statusMap_unknown by blast
  then show "getProp (parseInputRegisters data) ''inverterStatus'' = JNum (of_nat (unat (data ! 0)))"
    using a by (simp add: parseInputRegisters_def lookupOrRaw_def reg_def)
next
  fix data :: "16 word list"
  assume "40 < length data \<and> map_of errorMap (unat (data ! 40)) = None"
  then show "getProp (parseInputRegisters data) ''inverterError'' = JNum (of_nat (unat (data ! 40)))"
    by (simp add: parseInputRegisters_def lookupOrRaw_def reg_def)
next
  fix table :: "(nat \<times> string) list" and data :: "16 word list" and i
  assume "i < length data \<and> map_of table (unat (data ! i)) = None"
  then show "lookupOrRaw table data i = JNum (of_nat (unat (data ! i)))"
    by (simp add: lookupOrRaw_def reg_def)
qed

theorem unknown_code_passes_through_witness:
  "getProp (parseInputRegisters [13]) ''inverterStatus'' = JNum 13 \<and>
   getProp (parseInputRegisters ((replicate 90 0)[40 := 4])) ''inverterError'' = JNum 4"
proof -
  have 1: "getProp (parseInputRegisters [13]) ''inverterStatus'' = JNum 13"
    using unknown_code_passes_through [THEN conjunct1, THEN spec, of "[13]"] by simp
  have "map_of errorMap (unat (((replicate 90 0)[40 := 4] :: 16 word list) ! 40)) = None"
    by (simp add: errorMap_def)
  then have 2: "getProp (parseInputRegisters ((replicate 90 0)[40 := 4])) ''inverterError'' = JNum 4"
    using unknown_code_passes_through [THEN conjunct2, THEN conjunct1, THEN spec, of "(replicate 90 0)[40 := 4]"]
    by simp
  from 1 2 show ?thesis by (intro conjI)
qed

lemma ofInt32_wrap:
  assumes "2 ^ 31 \<le> k" "k < 2 ^ 32"
  shows "ofInt32 (word_of_int k) = JNum (of_int (k - 2 ^ 32))"
proof -
  have "(word_of_int k :: 32 word) = word_of_int (k - 2 ^ 32)"
    by (simp add: word_of_int_eq_iff take_bit_eq_mod)
  moreover have "- (2 ^ 31) \<le> k - 2 ^ 32" "k - 2 ^ 32 < 2 ^ 31"
    using assms by simp_all
  ultimately show ?thesis
    by (simp only: ofInt32_of_int)
qed

lemma combine_value_negative:
  fixes h l :: int
  assumes "32768 \<le> h" "h < 65536" "0 \<le> l" "l < 65536"
  shows "jsOr (jsShl (JNum (of_int h)) 16) (JNum (of_int l)) =
           JNum (of_int (h * 65536 + l - 4294967296))"
proof -
  have "jsShl (JNum (of_int h)) 16 = JNum (of_int (push_bit 16 h - 2 ^ 32))"
    unfolding jsShl_of_int using assms by (intro ofInt32_wrap) (simp_all add: push_bit_eq_mult)
  also have "push_bit 16 h - 2 ^ 32 = push_bit 16 (h - 65536)"
    by (simp add: push_bit_eq_mult algebra_simps)
  finally have "jsOr (jsShl (JNum (of_int h)) 16) (JNum (of_int l)) =
      ofInt32 (word_of_int (push_bit 16 (h - 65536) OR l))"
    by (simp only: jsOr_of_int)
  also have "push_bit 16 (h - 65536) OR l = (h - 65536) * 65536 + l"
    using push_or_eq_add [of l 16 "h - 65536"] assms by simp
  also have "ofInt32 (word_of_int ((h - 65536) * 65536 + l)) = JNum (of_int ((h - 65536) * 65536 + l))"
    using assms by (intro ofInt32_of_int) simp_all
  finally show ?thesis
    by (simp add: algebra_simps)
qed

text \<open>
  The two words are combined with 32-bit signed operators. When the high word of a
  two-word sensor field is \<open>0x8000\<close> or more, the decoded value is negative:
  \<open>(65536 * data[a] + data[a + 1] - 2^32) / 10\<close>.
\<close>

theorem combine32_high_bit_is_sign:
  assumes "(f, a) \<in> set combinedFields" and "length data = 90"
    and "32768 \<le> unat (data ! a)"
  shows "getProp (parseInputRegisters data) f =
           JNum ((65536 * of_nat (unat (data ! a)) + of_nat (unat (data ! Suc a)) - 4294967296) / 10)"
proof -
  have "a < 89"
    using assms(1) by (rule combined_field(2))
  then have a: "a < length data" "Suc a < length data"
    unfolding assms(2) by linarith+
  have "uint (data ! a) = int (unat (data ! a))"
    by (rule uint_nat)
  then have "32768 \<le> uint (data ! a)"
    using assms(3) by linarith
  moreover have "uint (data ! a) < 65536"
    using uint_bounded [of "data ! a"] by simp
  ultimately have h: "32768 \<le> uint (data ! a)" "uint (data ! a) < 65536"
    by blast+
  have l: "0 \<le> uint (data ! Suc a)" "uint (data ! Suc a) < 65536"
    using uint_bounded [of "data ! Suc a"] by simp_all
  have "jsOr (jsShl (reg data a) 16) (reg data (Suc a)) =
          JNum (of_int (uint (data ! a) * 65536 + uint (data ! Suc a) - 4294967296))"
    unfolding reg_word [OF a(1)] reg_word [OF a(2)] by (rule combine_value_negative [OF h l])
  then show ?thesis
    unfolding combined_field(1) [OF assms(1)] by simp
qed

theorem combine32_high_bit_is_sign_witness:
  "getProp (parseInputRegisters ((replicate 90 0)[3 := 0xFFFF, 4 := 0xFFFF])) ''ppv'' = JNum (- 0.1)"
proof -
  have m: "(''ppv'', 3) \<in> set combinedFields"
    by (simp add: combinedFields_def)
  have l: "length ((replicate 90 0)[3 := 0xFFFF, 4 := 0xFFFF] :: 16 word list) = 90"
    by simp
  have h: "32768 \<le> unat (((replicate 90 0)[3 := 0xFFFF, 4 := 0xFFFF] :: 16 word list) ! 3)"
    by simp
  have s: "Suc 3 = 4" by simp
  show ?thesis
    using combine32_high_bit_is_sign [OF m l h] unfolding s by simp
qed

lemma update_absent:
  "k \<notin> fst ` set obj \<Longrightarrow> AList.update k v obj = obj @ [(k, v)]"
  by (induction obj) auto

lemma validate_declared_keys:
  assumes "validate sch obj" "\<not> additionalProperties sch"
  shows "fst ` set obj \<subseteq> fst ` set (properties sch)"
  using assms by (auto simp: validate_def list_all_iff)

lemma undeclared_key_invalid:
  assumes "k \<in> fst ` set obj" "k \<notin> fst ` set (properties sch)" "\<not> additionalProperties sch"
  shows "\<not> validate sch obj"
  using assms validate_declared_keys by blast

text \<open>
  A key that names a property inherited from \<open>Object.prototype\<close> passes the
  \<open>typeof\<close> test of \<open>updateControl\<close> although the domain has no such field. From any
  state whose \<open>touCharging\<close> values validate, the update \<open>{toString: v}\<close> appends an
  own property \<open>toString\<close> to the cached values, and \<open>setTouCharging\<close> then fails
  validation, since the schema allows no additional property.
\<close>

theorem inherited_name_is_merged:
  assumes "parse (replaceQuotes msg) = Some (JObj [(''toString'', v)])"
    and "validate touChargingSchema (touChargingValues st)"
    and "st1 = snd (updateControl parse ''touCharging'' msg st)"
  shows "touChargingValues st1 = touChargingValues st @ [(''toString'', v)] \<and>
         setTouCharging chan st1 = (Inl (ThrowString ''Error validating setTouCharging''), st1)"
proof -
  have d: "''toString'' \<notin> fst ` set (properties touChargingSchema)"
    "\<not> additionalProperties touChargingSchema"
    by (simp_all add: touChargingSchema_def)
  have n: "''toString'' \<notin> fst ` set (touChargingValues st)"
    using validate_declared_keys [OF assms(2) d(2)] d(1) by blast
  then have "map_of (touChargingValues st) ''toString'' = None"
    by (simp add: map_of_eq_None_iff)
  then have "updateKey ''touCharging'' st (''toString'', v) =
      st\<lparr>touChargingValues := AList.update ''toString'' v (touChargingValues st)\<rparr>"
    by (simp add: updateKey_def definedIn_def setProp_def objectPrototypeKeys_def)
  then have st1: "st1 = st\<lparr>touChargingValues := touChargingValues st @ [(''toString'', v)]\<rparr>"
    unfolding assms(3) updateControl_object [of parse msg, OF assms(1)]
    by (simp add: update_absent [OF n])
  have "''toString'' \<in> fst ` set (touChargingValues st1)"
    unfolding st1 by simp
  then have "\<not> validate touChargingSchema (touChargingValues st1)"
    using d by (rule undeclared_key_invalid)
  then show ?thesis
    using st1 by (simp add: setTouCharging_invalid)
qed

theorem inherited_name_is_merged_witness:
  "touChargingValues
     (snd (updateControl (\<lambda>s. Some (JObj [(''toString'', JNum 1)])) ''touCharging'' [] initialSystem)) =
     touChargingDefaults @ [(''toString'', JNum 1)]"
  using inherited_name_is_merged
    [of "\<lambda>s. Some (JObj [(''toString'', JNum 1)])" "[]" "JNum 1" initialSystem _ quietChannel, OF refl _ refl]
  by (simp add: initialSystem_def defaults_valid)

text \<open>
  The schema's pattern \<open>ON|OFF\<close> is not anchored and its numbers need not be
  integers. The string \<open>NONE\<close> is accepted for the switch \<open>ac\<close> and written as 0; the
  hour 6.5 is accepted for \<open>startHour1\<close> and packed as 6, so the word \<open>0x0600\<close>
  reads back as hour 6.
\<close>

theorem schema_accepts_more_than_it_encodes:
  "validate touChargingSchema
     ([(''chargePower'', JNum 100), (''stopSOC'', JNum 100), (''ac'', JStr ''NONE''),
       (''startHour1'', JNum 6.5)] @ drop 4 touChargingDefaults) \<and>
   touChargingWords1
     ([(''chargePower'', JNum 100), (''stopSOC'', JNum 100), (''ac'', JStr ''NONE''),
       (''startHour1'', JNum 6.5)] @ drop 4 touChargingDefaults) = [JNum 100, JNum 100, JNum 0] \<and>
   touChargingWords2
     ([(''chargePower'', JNum 100), (''stopSOC'', JNum 100), (''ac'', JStr ''NONE''),
       (''startHour1'', JNum 6.5)] @ drop 4 touChargingDefaults) ! 0 = JNum 0x0600 \<and>
   getProp (touChargingOfWords [100, 100, 0] [0x0600, 0, 0, 0, 0, 0, 0, 0, 0]) ''startHour1'' = JNum 6"
proof -
  have 1: "validate touChargingSchema
     ([(''chargePower'', JNum 100), (''stopSOC'', JNum 100), (''ac'', JStr ''NONE''),
       (''startHour1'', JNum 6.5)] @ drop 4 touChargingDefaults)"
    by (simp add: validate_def propertyOk_def touChargingSchema_def touChargingDefaults_def)
  have 2: "touChargingWords1
     ([(''chargePower'', JNum 100), (''stopSOC'', JNum 100), (''ac'', JStr ''NONE''),
       (''startHour1'', JNum 6.5)] @ drop 4 touChargingDefaults) = [JNum 100, JNum 100, JNum 0]"
    by (simp add: touChargingWords1_def onOffWord_def)
  have 3: "touChargingWords2
     ([(''chargePower'', JNum 100), (''stopSOC'', JNum 100), (''ac'', JStr ''NONE''),
       (''startHour1'', JNum 6.5)] @ drop 4 touChargingDefaults) ! 0 = JNum 0x0600"
  proof -
    have "truncRat 6.5 = 6"
      by code_simp
    moreover have "truncRat 1536 = 1536" "truncRat 0 = 0"
      by (simp_all add: truncRat_def)
    ultimately show ?thesis
      by (simp add: touChargingWords2_def touChargingDefaults_def jsOr_def jsShl_def ofInt32_def)
  qed
  have 4: "getProp (touChargingOfWords [100, 100, 0] [0x0600, 0, 0, 0, 0, 0, 0, 0, 0]) ''startHour1'' = JNum 6"
    by (simp add: touChargingOfWords_def reg_def jsShr_def ofInt32_def truncRat_def)
  from 1 2 3 4 show ?thesis
    by (intro conjI)
qed

text \<open>
  The second revision writes its two battery thresholds multiplied by ten, and the
  product is a double: a cached 20.01 goes out as the double next above 200.1 (printed
  \<open>200.10000000000002\<close>), a cached 30.1 as 301, and a whole number of volts as ten
  times that number.
\<close>

lemma second_revision_threshold_words:
  "jsTimes (JNum 20.01) 10 = JNum (1760098213743821 / 8796093022208) \<and>
   jsTimes (JNum 30.1) 10 = JNum 301 \<and>
   jsTimes (JNum 50) 10 = JNum 500"
  by code_simp

end
